theory Spec2Isabelle
  imports Complex_Main "HOL-Library.Monad_Syntax"
begin

section \<open>Data model (types.ts)\<close>

text \<open>
  The engine computes with JavaScript numbers. They are modelled as real numbers: every
  arithmetic operation of the source is the exact operation on \<open>real\<close>, and rounding is not
  modelled. The one thing kept from the machine arithmetic is that a division whose divisor
  is zero leaves the numbers (it gives Infinity or NaN): such a division is written
  \<open>fdiv\<close> and returns \<open>None\<close>, and every function that divides by a computed quantity returns
  an option.
\<close>

datatype GameColor = Blue | Red | Green

datatype ArenaShape = Square | CircleShape | Hexagon | Triangle

datatype ArenaSize = Small | Medium | Large

text \<open>
  Circle ids are template strings: \<open>`${color}-${i}-${Date.now()}`\<close> for a seeded circle and
  \<open>`${color}-split-${Date.now()}-${Math.random()}`\<close> for a split one. Two such strings are
  equal exactly when they come from the same template with the same components, so an id is
  modelled by its components.
\<close>

datatype CircleId = SeedId GameColor nat nat | SplitId GameColor nat real

record Circle =
  cid :: CircleId
  cx :: real
  cy :: real
  cvx :: real
  cvy :: real
  ccolor :: GameColor
  csize :: real

datatype ParticleType = Collision | Split

datatype ParticleId = CollisionPId nat nat | SplitPId nat nat

record Particle =
  pid :: ParticleId
  px :: real
  py :: real
  pvx :: real
  pvy :: real
  pcolor :: GameColor
  psize :: real
  life :: real
  maxLife :: real
  ptype :: ParticleType

record ArenaConfig =
  shape :: ArenaShape
  asize :: ArenaSize
  width :: real
  height :: real

datatype Relationship = Attraction | Repulsion | Neutral

text \<open>
  The ambient sources of the engine: the k-th call of \<open>Math.random()\<close> or \<open>Date.now()\<close> made by
  the engine returns \<open>rnd w k\<close>, respectively \<open>clock w k\<close>. The engine state counts the calls
  made so far (\<open>calls\<close>).
\<close>

record World =
  rnd :: "nat \<Rightarrow> real"
  clock :: "nat \<Rightarrow> nat"

text \<open>
  The fields of class GameEngine. \<open>canvas_width\<close> and \<open>canvas_height\<close> are the two fields of
  the canvas the engine reads. \<open>gameEnds\<close> records the calls of the host's \<open>onGameEnd\<close>
  callback in order, \<open>rafCount\<close> counts the calls of \<open>requestAnimationFrame\<close>; the handle
  returned by the n-th call is n.
\<close>

record GameEngine =
  canvas_width :: real
  canvas_height :: real
  circles :: "Circle list"
  particles :: "Particle list"
  animationId :: "nat option"
  isRunning :: bool
  currentArena :: ArenaConfig
  PLAYFIELD_WIDTH :: real
  PLAYFIELD_HEIGHT :: real
  calls :: nat
  gameEnds :: "GameColor list"
  rafCount :: nat

definition CIRCLE_SIZE :: real where "CIRCLE_SIZE = 25"
definition INITIAL_CIRCLES_PER_COLOR :: nat where "INITIAL_CIRCLES_PER_COLOR = 100"
definition SPEED :: real where "SPEED = 2.5"
definition SPREAD_RADIUS :: real where "SPREAD_RADIUS = 80"
definition MAGNETIC_RANGE :: real where "MAGNETIC_RANGE = 75"
definition ATTRACTION_FORCE :: real where "ATTRACTION_FORCE = 0.15"
definition REPULSION_FORCE :: real where "REPULSION_FORCE = 0.2"

definition fdiv :: "real \<Rightarrow> real \<Rightarrow> real option" where
  "fdiv a b = (if b = 0 then None else Some (a / b))"

text \<open>A \<open>forEach\<close> or \<open>for\<close> loop whose body may leave the numbers.\<close>

fun foldO :: "('a \<Rightarrow> 's \<Rightarrow> 's option) \<Rightarrow> 'a list \<Rightarrow> 's \<Rightarrow> 's option" where
  "foldO f [] s = Some s"
| "foldO f (a # as) s = (case f a s of None \<Rightarrow> None | Some s' \<Rightarrow> foldO f as s')"

section \<open>Arena configuration\<close>

text \<open>GameEngine.createArenaConfig.\<close>

definition createArenaConfig :: "ArenaShape \<Rightarrow> ArenaSize \<Rightarrow> real \<Rightarrow> ArenaConfig" where
  "createArenaConfig sh sz baseSize =
     (let sizeMultiplier = (case sz of Small \<Rightarrow> 0.7 | Medium \<Rightarrow> 0.85 | Large \<Rightarrow> 1.0);
          adjustedSize = baseSize * sizeMultiplier;
          w = adjustedSize;
          h = (case sh of
                 Square \<Rightarrow> adjustedSize
               | CircleShape \<Rightarrow> adjustedSize
               | Hexagon \<Rightarrow> adjustedSize * 0.866
               | Triangle \<Rightarrow> adjustedSize * 0.866)
      in \<lparr>shape = sh, asize = sz, width = w, height = h\<rparr>)"

text \<open>GameEngine.setArena.\<close>

definition setArena :: "ArenaShape \<Rightarrow> ArenaSize \<Rightarrow> GameEngine \<Rightarrow> GameEngine" where
  "setArena sh sz e =
     (let baseSize = min (canvas_width e) (canvas_height e) - 20;
          arena = createArenaConfig sh sz baseSize
      in e\<lparr>currentArena := arena, PLAYFIELD_WIDTH := width arena, PLAYFIELD_HEIGHT := height arena\<rparr>)"

section \<open>The colour relation\<close>

text \<open>GameEngine.getColorRelationship.\<close>

definition getColorRelationship :: "GameColor \<Rightarrow> GameColor \<Rightarrow> Relationship" where
  "getColorRelationship currentColor otherColor =
     (if currentColor = Blue \<and> otherColor = Red then Attraction
      else if currentColor = Blue \<and> otherColor = Green then Repulsion
      else if currentColor = Green \<and> otherColor = Blue then Attraction
      else if currentColor = Green \<and> otherColor = Red then Repulsion
      else if currentColor = Red \<and> otherColor = Green then Attraction
      else if currentColor = Red \<and> otherColor = Blue then Repulsion
      else Neutral)"

text \<open>GameEngine.resolveBattle: the pair (winner, loser), both null when no rule applies.\<close>

definition resolveBattle :: "Circle \<Rightarrow> Circle \<Rightarrow> Circle option \<times> Circle option" where
  "resolveBattle circle1 circle2 =
     (if (ccolor circle1 = Blue \<and> ccolor circle2 = Red) \<or>
         (ccolor circle1 = Green \<and> ccolor circle2 = Blue) \<or>
         (ccolor circle1 = Red \<and> ccolor circle2 = Green)
      then (Some circle1, Some circle2)
      else if (ccolor circle2 = Blue \<and> ccolor circle1 = Red) \<or>
              (ccolor circle2 = Green \<and> ccolor circle1 = Blue) \<or>
              (ccolor circle2 = Red \<and> ccolor circle1 = Green)
      then (Some circle2, Some circle1)
      else (None, None))"

text \<open>
  The dominance relation as the specification words it (and as the comment of resolveBattle
  does): blue beats red, green beats blue, red beats green.
\<close>

fun beats :: "GameColor \<Rightarrow> GameColor \<Rightarrow> bool" where
  "beats Blue Red = True"
| "beats Green Blue = True"
| "beats Red Green = True"
| "beats _ _ = False"

section \<open>Force field\<close>

text \<open>
  The body of the \<open>forEach\<close> of GameEngine.applyMagneticForces: one other circle, and the
  accumulators (totalForceX, totalForceY).
\<close>

definition magneticBody :: "Circle \<Rightarrow> Circle \<Rightarrow> real \<times> real \<Rightarrow> (real \<times> real) option" where
  "magneticBody currentCircle otherCircle tot =
     (if cid currentCircle = cid otherCircle \<or> ccolor currentCircle = ccolor otherCircle
      then Some tot
      else
        let dx = cx otherCircle - cx currentCircle;
            dy = cy otherCircle - cy currentCircle;
            distance = sqrt (dx * dx + dy * dy)
        in if distance > MAGNETIC_RANGE \<or> distance = 0 then Some tot
           else do {
             normalX \<leftarrow> fdiv dx distance;
             normalY \<leftarrow> fdiv dy distance;
             let relationship = getColorRelationship (ccolor currentCircle) (ccolor otherCircle);
             if relationship = Attraction then
               (let force = ATTRACTION_FORCE * (1 - distance / MAGNETIC_RANGE)
                in Some (fst tot + normalX * force, snd tot + normalY * force))
             else if relationship = Repulsion then
               (let force = REPULSION_FORCE * (1 - distance / MAGNETIC_RANGE)
                in Some (fst tot - normalX * force, snd tot - normalY * force))
             else Some tot
           })"

text \<open>
  GameEngine.applyMagneticForces. \<open>cs\<close> is \<open>this.circles\<close> at the time of the call; the result
  is the current circle with its new velocity.
\<close>

definition applyMagneticForces :: "Circle list \<Rightarrow> Circle \<Rightarrow> Circle option" where
  "applyMagneticForces cs currentCircle =
     do {
       tot \<leftarrow> foldO (magneticBody currentCircle) cs (0, 0);
       let vx = cvx currentCircle + fst tot;
       let vy = cvy currentCircle + snd tot;
       let currentSpeed = sqrt (vx * vx + vy * vy);
       let maxSpeed = SPEED * 1.8;
       if currentSpeed > maxSpeed then
         do {
           speedRatio \<leftarrow> fdiv maxSpeed currentSpeed;
           Some (currentCircle\<lparr>cvx := vx * speedRatio, cvy := vy * speedRatio\<rparr>)
         }
       else Some (currentCircle\<lparr>cvx := vx, cvy := vy\<rparr>)
     }"

section \<open>Arena boundaries\<close>

text \<open>GameEngine.handleSquareBoundaries.\<close>

definition handleSquareBoundaries :: "GameEngine \<Rightarrow> Circle \<Rightarrow> Circle" where
  "handleSquareBoundaries e circle =
     (let centerX = canvas_width e / 2;
          centerY = canvas_height e / 2;
          halfWidth = PLAYFIELD_WIDTH e / 2;
          halfHeight = PLAYFIELD_HEIGHT e / 2;
          left = centerX - halfWidth + csize circle / 2;
          right = centerX + halfWidth - csize circle / 2;
          top = centerY - halfHeight + csize circle / 2;
          bottom = centerY + halfHeight - csize circle / 2;
          circle1 = (if cx circle \<le> left \<or> cx circle \<ge> right
                     then circle\<lparr>cvx := - cvx circle, cx := max left (min right (cx circle))\<rparr>
                     else circle)
      in if cy circle1 \<le> top \<or> cy circle1 \<ge> bottom
         then circle1\<lparr>cvy := - cvy circle1, cy := max top (min bottom (cy circle1))\<rparr>
         else circle1)"

text \<open>GameEngine.handleCircleBoundaries.\<close>

definition handleCircleBoundaries :: "GameEngine \<Rightarrow> Circle \<Rightarrow> real \<Rightarrow> real \<Rightarrow> Circle option" where
  "handleCircleBoundaries e circle centerX centerY =
     (let dx = cx circle - centerX;
          dy = cy circle - centerY;
          distance = sqrt (dx * dx + dy * dy);
          radius = PLAYFIELD_WIDTH e / 2 - csize circle / 2
      in if distance > radius then
           do {
             normalX \<leftarrow> fdiv dx distance;
             normalY \<leftarrow> fdiv dy distance;
             let dot = cvx circle * normalX + cvy circle * normalY;
             Some (circle\<lparr>cvx := cvx circle - 2 * dot * normalX,
                          cvy := cvy circle - 2 * dot * normalY,
                          cx := centerX + normalX * radius,
                          cy := centerY + normalY * radius\<rparr>)
           }
         else Some circle)"

definition handleHexagonBoundaries :: "GameEngine \<Rightarrow> Circle \<Rightarrow> real \<Rightarrow> real \<Rightarrow> Circle option" where
  "handleHexagonBoundaries e circle centerX centerY = handleCircleBoundaries e circle centerX centerY"

definition handleTriangleBoundaries :: "GameEngine \<Rightarrow> Circle \<Rightarrow> real \<Rightarrow> real \<Rightarrow> Circle option" where
  "handleTriangleBoundaries e circle centerX centerY = handleCircleBoundaries e circle centerX centerY"

text \<open>GameEngine.handleArenaBoundaries.\<close>

definition handleArenaBoundaries :: "GameEngine \<Rightarrow> Circle \<Rightarrow> Circle option" where
  "handleArenaBoundaries e circle =
     (let centerX = canvas_width e / 2;
          centerY = canvas_height e / 2
      in case shape (currentArena e) of
           Square \<Rightarrow> Some (handleSquareBoundaries e circle)
         | CircleShape \<Rightarrow> handleCircleBoundaries e circle centerX centerY
         | Hexagon \<Rightarrow> handleHexagonBoundaries e circle centerX centerY
         | Triangle \<Rightarrow> handleTriangleBoundaries e circle centerX centerY)"

section \<open>Moving the circles\<close>

text \<open>
  The body of the \<open>forEach\<close> of GameEngine.updateCircles for the circle at index i. The
  circle is an object of \<open>this.circles\<close> and is changed in place, so the circles after it in
  the array see its new position when their own forces are computed.
\<close>

definition updateCircle :: "nat \<Rightarrow> GameEngine \<Rightarrow> GameEngine option" where
  "updateCircle i e =
     do {
       c1 \<leftarrow> applyMagneticForces (circles e) (circles e ! i);
       let c2 = c1\<lparr>cx := cx c1 + cvx c1, cy := cy c1 + cvy c1\<rparr>;
       c3 \<leftarrow> handleArenaBoundaries e c2;
       Some (e\<lparr>circles := (circles e)[i := c3]\<rparr>)
     }"

text \<open>GameEngine.updateCircles.\<close>

definition updateCircles :: "GameEngine \<Rightarrow> GameEngine option" where
  "updateCircles e = foldO updateCircle [0..<length (circles e)] e"

text \<open>
  The update as the specification words it, in three separate phases: the force field for
  every circle, then the integration of every circle, then the boundaries of every circle.
\<close>

definition updateCircles_phased :: "GameEngine \<Rightarrow> GameEngine option" where
  "updateCircles_phased e =
     do {
       e1 \<leftarrow> foldO (\<lambda>i s. do {
                 c \<leftarrow> applyMagneticForces (circles s) (circles s ! i);
                 Some (s\<lparr>circles := (circles s)[i := c]\<rparr>) })
               [0..<length (circles e)] e;
       let e2 = e1\<lparr>circles := map (\<lambda>c. c\<lparr>cx := cx c + cvx c, cy := cy c + cvy c\<rparr>) (circles e1)\<rparr>;
       foldO (\<lambda>i s. do {
                 c \<leftarrow> handleArenaBoundaries s (circles s ! i);
                 Some (s\<lparr>circles := (circles s)[i := c]\<rparr>) })
             [0..<length (circles e2)] e2
     }"

section \<open>Particles\<close>

text \<open>GameEngine.updateParticles.\<close>

definition updateParticles :: "GameEngine \<Rightarrow> GameEngine" where
  "updateParticles e =
     e\<lparr>particles :=
          filter (\<lambda>particle. life particle > 0)
            (map (\<lambda>particle. particle\<lparr>px := px particle + pvx particle,
                                        py := py particle + pvy particle,
                                        life := life particle - 1 / 60,
                                        pvx := pvx particle * 0.98,
                                        pvy := (pvy particle + 0.1) * 0.98\<rparr>)
                 (particles e))\<rparr>"

text \<open>
  One iteration of the loop of GameEngine.createCollisionParticles. It makes, in this order,
  three calls of Math.random (speed, size, life), one of Date.now (id) and two of
  Math.random (x, y).
\<close>

definition collisionParticle ::
  "World \<Rightarrow> Circle \<Rightarrow> Circle \<Rightarrow> real \<Rightarrow> real \<Rightarrow> nat \<Rightarrow> GameEngine \<Rightarrow> GameEngine" where
  "collisionParticle w circle1 circle2 centerX centerY i e =
     (let k = calls e;
          particleCount = 6;
          angle = (real i / particleCount) * pi * 2;
          speed = 3 + rnd w k * 4;
          size = 3 + rnd w (k + 1) * 4;
          lifetime = 0.5 + rnd w (k + 2) * 0.5;
          color = (if i mod 2 = 0 then ccolor circle1 else ccolor circle2);
          particle = \<lparr>pid = CollisionPId (clock w (k + 3)) i,
                      px = centerX + (rnd w (k + 4) - 0.5) * 20,
                      py = centerY + (rnd w (k + 5) - 0.5) * 20,
                      pvx = cos angle * speed,
                      pvy = sin angle * speed,
                      pcolor = color,
                      psize = size,
                      life = lifetime,
                      maxLife = lifetime,
                      ptype = Collision\<rparr>
      in e\<lparr>particles := particles e @ [particle], calls := k + 6\<rparr>)"

definition createCollisionParticles :: "World \<Rightarrow> Circle \<Rightarrow> Circle \<Rightarrow> GameEngine \<Rightarrow> GameEngine" where
  "createCollisionParticles w circle1 circle2 e =
     (let centerX = (cx circle1 + cx circle2) / 2;
          centerY = (cy circle1 + cy circle2) / 2
      in fold (collisionParticle w circle1 circle2 centerX centerY) [0..<6] e)"

definition splitParticle :: "World \<Rightarrow> Circle \<Rightarrow> nat \<Rightarrow> GameEngine \<Rightarrow> GameEngine" where
  "splitParticle w circle i e =
     (let k = calls e;
          particleCount = 8;
          angle = (real i / particleCount) * pi * 2;
          speed = 2 + rnd w k * 3;
          size = 2 + rnd w (k + 1) * 3;
          lifetime = 0.8 + rnd w (k + 2) * 0.7;
          particle = \<lparr>pid = SplitPId (clock w (k + 3)) i,
                      px = cx circle + (rnd w (k + 4) - 0.5) * csize circle,
                      py = cy circle + (rnd w (k + 5) - 0.5) * csize circle,
                      pvx = cos angle * speed,
                      pvy = sin angle * speed,
                      pcolor = ccolor circle,
                      psize = size,
                      life = lifetime,
                      maxLife = lifetime,
                      ptype = Split\<rparr>
      in e\<lparr>particles := particles e @ [particle], calls := k + 6\<rparr>)"

definition createSplitParticles :: "World \<Rightarrow> Circle \<Rightarrow> GameEngine \<Rightarrow> GameEngine" where
  "createSplitParticles w circle e = fold (splitParticle w circle) [0..<8] e"

section \<open>Collisions\<close>

text \<open>GameEngine.isColliding.\<close>

definition isColliding :: "Circle \<Rightarrow> Circle \<Rightarrow> bool" where
  "isColliding circle1 circle2 =
     (let dx = cx circle1 - cx circle2;
          dy = cy circle1 - cy circle2;
          distance = sqrt (dx * dx + dy * dy);
          minDistance = (csize circle1 + csize circle2) / 2
      in distance < minDistance)"

text \<open>
  GameEngine.applyBounce. The two circles are changed in place; the result is the pair of
  their new values.
\<close>

definition applyBounce :: "Circle \<Rightarrow> Circle \<Rightarrow> (Circle \<times> Circle) option" where
  "applyBounce circle1 circle2 =
     (let dx = cx circle2 - cx circle1;
          dy = cy circle2 - cy circle1;
          distance = sqrt (dx * dx + dy * dy)
      in if distance = 0 then Some (circle1, circle2)
         else do {
           normalX \<leftarrow> fdiv dx distance;
           normalY \<leftarrow> fdiv dy distance;
           let speed1 = sqrt (cvx circle1 * cvx circle1 + cvy circle1 * cvy circle1);
           let speed2 = sqrt (cvx circle2 * cvx circle2 + cvy circle2 * cvy circle2);
           let dot1 = cvx circle1 * normalX + cvy circle1 * normalY;
           let dot2 = cvx circle2 * normalX + cvy circle2 * normalY;
           let r1 = circle1\<lparr>cvx := cvx circle1 - 2 * dot1 * normalX,
                            cvy := cvy circle1 - 2 * dot1 * normalY\<rparr>;
           let r2 = circle2\<lparr>cvx := cvx circle2 - 2 * dot2 * normalX,
                            cvy := cvy circle2 - 2 * dot2 * normalY\<rparr>;
           let newSpeed1 = sqrt (cvx r1 * cvx r1 + cvy r1 * cvy r1);
           let newSpeed2 = sqrt (cvx r2 * cvx r2 + cvy r2 * cvy r2);
           s1 \<leftarrow> (if newSpeed1 > 0 then
                    do {
                      ux \<leftarrow> fdiv (cvx r1) newSpeed1;
                      uy \<leftarrow> fdiv (cvy r1) newSpeed1;
                      Some (r1\<lparr>cvx := ux * speed1, cvy := uy * speed1\<rparr>)
                    }
                  else Some r1);
           s2 \<leftarrow> (if newSpeed2 > 0 then
                    do {
                      ux \<leftarrow> fdiv (cvx r2) newSpeed2;
                      uy \<leftarrow> fdiv (cvy r2) newSpeed2;
                      Some (r2\<lparr>cvx := ux * speed2, cvy := uy * speed2\<rparr>)
                    }
                  else Some r2);
           let overlap = (csize s1 + csize s2) / 2 - distance;
           if overlap > 0 then
             (let separationX = normalX * overlap * 0.5;
                  separationY = normalY * overlap * 0.5
              in Some (s1\<lparr>cx := cx s1 - separationX, cy := cy s1 - separationY\<rparr>,
                       s2\<lparr>cx := cx s2 + separationX, cy := cy s2 + separationY\<rparr>))
           else Some (s1, s2)
         })"

text \<open>
  GameEngine.createSplitCircle. It calls Math.random (angle), Date.now and Math.random (id),
  and Math.random twice (vx, vy).
\<close>

definition createSplitCircle :: "World \<Rightarrow> Circle \<Rightarrow> GameEngine \<Rightarrow> Circle \<times> GameEngine" where
  "createSplitCircle w originalCircle e =
     (let k = calls e;
          angle = rnd w k * pi * 2;
          offset = 10
      in (\<lparr>cid = SplitId (ccolor originalCircle) (clock w (k + 1)) (rnd w (k + 2)),
           cx = cx originalCircle + cos angle * offset,
           cy = cy originalCircle + sin angle * offset,
           cvx = cvx originalCircle + (rnd w (k + 3) - 0.5) * 1,
           cvy = cvy originalCircle + (rnd w (k + 4) - 0.5) * 1,
           ccolor = ccolor originalCircle,
           csize = CIRCLE_SIZE\<rparr>,
          e\<lparr>calls := k + 5\<rparr>))"

text \<open>
  The state of the pairwise scan of GameEngine.checkCollisions: the engine (whose circles
  the bounce changes in place) and the two locals \<open>toRemove\<close> and \<open>toAdd\<close>.
\<close>

record Scan =
  eng :: GameEngine
  toRemove :: "CircleId set"
  toAdd :: "Circle list"

text \<open>The body of the inner loop of GameEngine.checkCollisions, for the pair (i, j).\<close>

definition collidePair :: "World \<Rightarrow> nat \<Rightarrow> nat \<Rightarrow> Scan \<Rightarrow> Scan option" where
  "collidePair w i j s =
     (let circle1 = circles (eng s) ! i;
          circle2 = circles (eng s) ! j
      in if cid circle1 \<in> toRemove s \<or> cid circle2 \<in> toRemove s then Some s
         else if isColliding circle1 circle2 then
           (if ccolor circle1 \<noteq> ccolor circle2 then
              (case applyBounce circle1 circle2 of
                 None \<Rightarrow> None
               | Some (b1, b2) \<Rightarrow>
                   (let e1 = (eng s)\<lparr>circles := (circles (eng s))[i := b1, j := b2]\<rparr>;
                        e2 = createCollisionParticles w b1 b2 e1
                    in case resolveBattle b1 b2 of
                         (Some winner, Some loser) \<Rightarrow>
                           (let e3 = createSplitParticles w winner e2;
                                (newCircle, e4) = createSplitCircle w winner e3
                            in Some (s\<lparr>eng := e4,
                                       toRemove := insert (cid loser) (toRemove s),
                                       toAdd := toAdd s @ [newCircle]\<rparr>))
                       | _ \<Rightarrow> Some (s\<lparr>eng := e2\<rparr>)))
            else Some s)
         else Some s)"

text \<open>The two nested loops of GameEngine.checkCollisions.\<close>

definition collisionScan :: "World \<Rightarrow> GameEngine \<Rightarrow> Scan option" where
  "collisionScan w e =
     (let n = length (circles e)
      in foldO (\<lambda>i. foldO (collidePair w i) [i + 1..<n]) [0..<n]
           \<lparr>eng = e, toRemove = {}, toAdd = []\<rparr>)"

text \<open>GameEngine.checkCollisions.\<close>

definition checkCollisions :: "World \<Rightarrow> GameEngine \<Rightarrow> GameEngine option" where
  "checkCollisions w e =
     (case collisionScan w e of
        None \<Rightarrow> None
      | Some s \<Rightarrow>
          Some ((eng s)\<lparr>circles :=
                   filter (\<lambda>circle. cid circle \<notin> toRemove s) (circles (eng s)) @ toAdd s\<rparr>))"

section \<open>Win condition and the frame loop\<close>

text \<open>GameEngine.getColorCounts.\<close>

definition getColorCounts :: "GameEngine \<Rightarrow> GameColor \<Rightarrow> nat" where
  "getColorCounts e =
     fold (\<lambda>circle counts. counts(ccolor circle := counts (ccolor circle) + 1))
          (circles e) (\<lambda>_. 0)"

text \<open>
  GameEngine.checkWinCondition. \<open>Object.entries(counts)\<close> lists the three colours in the order
  in which the object literal of getColorCounts names them.
\<close>

definition checkWinCondition :: "GameEngine \<Rightarrow> GameEngine" where
  "checkWinCondition e =
     (let counts = getColorCounts e;
          activeColors = filter (\<lambda>(_, count). count > 0)
                           [(Blue, counts Blue), (Red, counts Red), (Green, counts Green)]
      in if length activeColors = 1
         then (let winner = fst (hd activeColors)
               in e\<lparr>isRunning := False, gameEnds := gameEnds e @ [winner]\<rparr>)
         else e)"

text \<open>
  GameEngine.gameLoop. \<open>render\<close> only reads the engine and draws on the canvas, which is not
  part of the state.
\<close>

definition gameLoop :: "World \<Rightarrow> GameEngine \<Rightarrow> GameEngine option" where
  "gameLoop w e =
     (if \<not> isRunning e then Some e
      else do {
        e1 \<leftarrow> updateCircles e;
        let e2 = updateParticles e1;
        e3 \<leftarrow> checkCollisions w e2;
        let e4 = checkWinCondition e3;
        Some (e4\<lparr>animationId := Some (rafCount e4 + 1), rafCount := rafCount e4 + 1\<rparr>)
      })"

text \<open>
  n frames: each time the browser runs the callback that the last gameLoop registered with
  requestAnimationFrame, which is gameLoop again.
\<close>

fun frames :: "World \<Rightarrow> nat \<Rightarrow> GameEngine \<Rightarrow> GameEngine option" where
  "frames w 0 e = Some e"
| "frames w (Suc n) e = (case gameLoop w e of None \<Rightarrow> None | Some e' \<Rightarrow> frames w n e')"

section \<open>Derived notions and example states\<close>

text \<open>
  What one other circle adds to the accumulators of applyMagneticForces: the body of the
  loop run on zero accumulators.
\<close>

definition forceContribution :: "Circle \<Rightarrow> Circle \<Rightarrow> real \<times> real" where
  "forceContribution currentCircle otherCircle =
     (case magneticBody currentCircle otherCircle (0, 0) of Some t \<Rightarrow> t | None \<Rightarrow> (0, 0))"

text \<open>
  Two engine states that differ at most in the circles, the particles and the count of
  ambient calls.
\<close>

definition sameHost :: "GameEngine \<Rightarrow> GameEngine \<Rightarrow> bool" where
  "sameHost e e' \<longleftrightarrow>
     isRunning e' = isRunning e \<and> gameEnds e' = gameEnds e \<and> rafCount e' = rafCount e
     \<and> animationId e' = animationId e \<and> canvas_width e' = canvas_width e
     \<and> canvas_height e' = canvas_height e \<and> currentArena e' = currentArena e
     \<and> PLAYFIELD_WIDTH e' = PLAYFIELD_WIDTH e \<and> PLAYFIELD_HEIGHT e' = PLAYFIELD_HEIGHT e"

text \<open>
  The invariant of the pairwise scan of checkCollisions, relative to the engine e0 at its
  start: the bounce changes no id, colour or size, the marked ids are ids of the list, and
  there are as many queued circles as marked ids.
\<close>

definition scanInv :: "GameEngine \<Rightarrow> Scan \<Rightarrow> bool" where
  "scanInv e0 s \<longleftrightarrow>
     map cid (circles (eng s)) = map cid (circles e0)
     \<and> map ccolor (circles (eng s)) = map ccolor (circles e0)
     \<and> map csize (circles (eng s)) = map csize (circles e0)
     \<and> sameHost e0 (eng s)
     \<and> finite (toRemove s)
     \<and> toRemove s \<subseteq> set (map cid (circles e0))
     \<and> card (toRemove s) = length (toAdd s)"

text \<open>Concrete circles, worlds and engines on which the theorems are run.\<close>

definition circleA :: Circle where
  "circleA = \<lparr>cid = SeedId Blue 0 0, cx = 100, cy = 100, cvx = 2, cvy = 0, ccolor = Blue, csize = 25\<rparr>"

definition circleB :: Circle where
  "circleB = \<lparr>cid = SeedId Red 0 0, cx = 120, cy = 100, cvx = -2, cvy = 0, ccolor = Red, csize = 25\<rparr>"

definition circleC :: Circle where
  "circleC = \<lparr>cid = SeedId Red 1 0, cx = 100, cy = 100, cvx = -2, cvy = 1, ccolor = Red, csize = 25\<rparr>"

definition circleD :: Circle where
  "circleD = \<lparr>cid = SeedId Blue 1 0, cx = 100, cy = 100, cvx = 0, cvy = 1, ccolor = Blue, csize = 25\<rparr>"

definition world0 :: World where
  "world0 = \<lparr>rnd = (\<lambda>_. 0), clock = (\<lambda>_. 0)\<rparr>"

definition arena0 :: ArenaConfig where
  "arena0 = \<lparr>shape = Square, asize = Large, width = 480, height = 480\<rparr>"

definition engineOf :: "Circle list \<Rightarrow> GameEngine" where
  "engineOf cs = \<lparr>canvas_width = 500, canvas_height = 500, circles = cs, particles = [],
                  animationId = None, isRunning = True, currentArena = arena0,
                  PLAYFIELD_WIDTH = 480, PLAYFIELD_HEIGHT = 480, calls = 0, gameEnds = [],
                  rafCount = 0\<rparr>"

definition circleE :: Circle where
  "circleE = \<lparr>cid = SeedId Blue 2 0, cx = 100, cy = 100, cvx = 0, cvy = 0, ccolor = Blue, csize = 25\<rparr>"

definition circleF :: Circle where
  "circleF = \<lparr>cid = SeedId Red 2 0, cx = 130, cy = 100, cvx = 0, cvy = 0, ccolor = Red, csize = 25\<rparr>"

definition circleE1 :: Circle where
  "circleE1 = \<lparr>cid = SeedId Blue 2 0, cx = 10009 / 100, cy = 100, cvx = 9 / 100, cvy = 0, ccolor = Blue, csize = 25\<rparr>"

definition circleF1 :: Circle where
  "circleF1 = \<lparr>cid = SeedId Red 2 0, cx = 1626503 / 12500, cy = 100, cvx = 1503 / 12500, cvy = 0, ccolor = Red, csize = 25\<rparr>"

definition circleG :: Circle where
  "circleG = \<lparr>cid = SeedId Green 0 0, cx = 490, cy = 100, cvx = 3, cvy = 1, ccolor = Green, csize = 25\<rparr>"

text \<open>
  A square arena smaller than a circle: a canvas of 40 by 40 pixels gives the base size 20
  and, for the size class small, a playfield of 14 by 14.
\<close>

definition tinyEngine :: GameEngine where
  "tinyEngine = \<lparr>canvas_width = 40, canvas_height = 40, circles = [], particles = [],
                  animationId = None, isRunning = True,
                  currentArena = \<lparr>shape = Square, asize = Small, width = 14, height = 14\<rparr>,
                  PLAYFIELD_WIDTH = 14, PLAYFIELD_HEIGHT = 14, calls = 0, gameEnds = [],
                  rafCount = 0\<rparr>"

definition circleT :: Circle where
  "circleT = \<lparr>cid = SeedId Blue 0 0, cx = 20, cy = 20, cvx = 1, cvy = 0, ccolor = Blue, csize = 25\<rparr>"

text \<open>The engine after the first frame of a run with the single circle circleA.\<close>

definition engineA1 :: GameEngine where
  "engineA1 = (engineOf [circleA\<lparr>cx := 102\<rparr>])\<lparr>animationId := Some 1, isRunning := False,
                                               gameEnds := [Blue], rafCount := 1\<rparr>"









definition circleS :: Circle where
  "circleS = \<lparr>cid = SeedId Blue 7 0, cx = 200, cy = 200, cvx = 6, cvy = 8, ccolor = Blue, csize = 25\<rparr>"

text \<open>The circle at index k of an engine state that may be missing.\<close>

definition circleAt :: "nat \<Rightarrow> GameEngine option \<Rightarrow> Circle option" where
  "circleAt k r = map_option (\<lambda>e. circles e ! k) r"

section \<open>Theorems\<close>

subsection \<open>Auxiliary facts\<close>

lemma fdiv_Some: "b \<noteq> 0 \<Longrightarrow> fdiv a b = Some (a / b)"
  by (simp add: fdiv_def)

lemma foldO_total:
  assumes "\<And>a s. \<exists>s'. f a s = Some s'"
  shows "\<exists>s'. foldO f xs s = Some s'"
proof (induction xs arbitrary: s)
  case Nil
  show ?case by simp
next
  case (Cons a xs)
  from assms obtain s1 where "f a s = Some s1" by blast
  with Cons.IH [of s1] show ?case by simp
qed

lemma foldO_append:
  "foldO f (xs @ ys) s = (case foldO f xs s of None \<Rightarrow> None | Some s' \<Rightarrow> foldO f ys s')"
  by (induction xs arbitrary: s) (auto split: option.splits)

lemma magneticBody_total: "\<exists>t. magneticBody c o' tot = Some t"
  by (auto simp: magneticBody_def Let_def fdiv_def)

lemma magneticBody_same_color:
  "ccolor o' = ccolor c \<Longrightarrow> magneticBody c o' tot = Some tot"
  by (simp add: magneticBody_def)

lemma sqrt_sum_squares_zero: "sqrt (a * a + b * b) = 0 \<longleftrightarrow> a = 0 \<and> b = (0::real)"
  by (simp add: sum_squares_eq_zero_iff)

lemma MAGNETIC_RANGE_pos: "0 < MAGNETIC_RANGE" by (simp add: MAGNETIC_RANGE_def)

lemma applyMagneticForces_total: "\<exists>c'. applyMagneticForces cs c = Some c'"
proof -
  obtain tot where t: "foldO (magneticBody c) cs (0, 0) = Some tot"
    using foldO_total [of "magneticBody c" cs "(0, 0)"] magneticBody_total by blast
  show ?thesis
    using t by (auto simp: applyMagneticForces_def Let_def fdiv_def SPEED_def)
qed

lemma applyBounce_total: "\<exists>r. applyBounce c1 c2 = Some r"
  by (auto simp: applyBounce_def Let_def fdiv_def)

lemma applyBounce_coincident:
  "cx c1 = cx c2 \<Longrightarrow> cy c1 = cy c2 \<Longrightarrow> applyBounce c1 c2 = Some (c1, c2)"
  by (simp add: applyBounce_def)

lemma magneticBody_coincident:
  "cx c1 = cx c2 \<Longrightarrow> cy c1 = cy c2 \<Longrightarrow> magneticBody c1 c2 tot = Some tot"
  by (simp add: magneticBody_def)

lemma reflect_norm:
  fixes nx ny vx vy :: real
  assumes "nx * nx + ny * ny = 1"
  shows "(vx - 2 * (vx * nx + vy * ny) * nx) * (vx - 2 * (vx * nx + vy * ny) * nx)
       + (vy - 2 * (vx * nx + vy * ny) * ny) * (vy - 2 * (vx * nx + vy * ny) * ny)
       = vx * vx + vy * vy"
  using assms by algebra

lemma unit_normal_aux:
  fixes dx dy d :: real
  assumes "d * d = dx * dx + dy * dy" and "d \<noteq> 0"
  shows "(dx / d) * (dx / d) + (dy / d) * (dy / d) = 1"
proof -
  have "(dx / d) * (dx / d) + (dy / d) * (dy / d) = (dx * dx + dy * dy) / (d * d)"
    by (simp add: add_divide_distrib)
  also have "\<dots> = 1"
  proof -
    have "d * d \<noteq> 0" using assms(2) by simp
    then show ?thesis by (simp add: assms(1) [symmetric])
  qed
  finally show ?thesis .
qed

lemma unit_normal:
  fixes dx dy :: real
  assumes "sqrt (dx * dx + dy * dy) \<noteq> 0"
  shows "(dx / sqrt (dx * dx + dy * dy)) * (dx / sqrt (dx * dx + dy * dy))
       + (dy / sqrt (dx * dx + dy * dy)) * (dy / sqrt (dx * dx + dy * dy)) = 1"
  by (rule unit_normal_aux) (use assms in simp_all)

lemma applyBounce_explicit:
  fixes c1 c2 :: Circle
  defines "d \<equiv> sqrt ((cx c2 - cx c1) * (cx c2 - cx c1) + (cy c2 - cy c1) * (cy c2 - cy c1))"
  defines "nx \<equiv> (cx c2 - cx c1) / d"
  defines "ny \<equiv> (cy c2 - cy c1) / d"
  defines "dot1 \<equiv> cvx c1 * nx + cvy c1 * ny"
  defines "dot2 \<equiv> cvx c2 * nx + cvy c2 * ny"
  defines "overlap \<equiv> (csize c1 + csize c2) / 2 - d"
  assumes nz: "d \<noteq> 0"
  shows "applyBounce c1 c2 =
           Some (if overlap > 0
                 then (c1\<lparr>cvx := cvx c1 - 2 * dot1 * nx, cvy := cvy c1 - 2 * dot1 * ny,
                          cx := cx c1 - nx * overlap * 0.5, cy := cy c1 - ny * overlap * 0.5\<rparr>,
                       c2\<lparr>cvx := cvx c2 - 2 * dot2 * nx, cvy := cvy c2 - 2 * dot2 * ny,
                          cx := cx c2 + nx * overlap * 0.5, cy := cy c2 + ny * overlap * 0.5\<rparr>)
                 else (c1\<lparr>cvx := cvx c1 - 2 * dot1 * nx, cvy := cvy c1 - 2 * dot1 * ny\<rparr>,
                       c2\<lparr>cvx := cvx c2 - 2 * dot2 * nx, cvy := cvy c2 - 2 * dot2 * ny\<rparr>))"
proof -
  have fx: "fdiv (cx c2 - cx c1) (sqrt ((cx c2 - cx c1) * (cx c2 - cx c1) + (cy c2 - cy c1) * (cy c2 - cy c1))) = Some nx"
    using nz by (simp add: fdiv_def nx_def d_def)
  have fy: "fdiv (cy c2 - cy c1) (sqrt ((cx c2 - cx c1) * (cx c2 - cx c1) + (cy c2 - cy c1) * (cy c2 - cy c1))) = Some ny"
    using nz by (simp add: fdiv_def ny_def d_def)
  have unit: "nx * nx + ny * ny = 1"
    unfolding nx_def ny_def d_def by (rule unit_normal) (use nz in \<open>simp add: d_def\<close>)
  have n1: "(cvx c1 - 2 * dot1 * nx) * (cvx c1 - 2 * dot1 * nx)
          + (cvy c1 - 2 * dot1 * ny) * (cvy c1 - 2 * dot1 * ny) = cvx c1 * cvx c1 + cvy c1 * cvy c1"
    unfolding dot1_def by (rule reflect_norm [OF unit])
  have n2: "(cvx c2 - 2 * dot2 * nx) * (cvx c2 - 2 * dot2 * nx)
          + (cvy c2 - 2 * dot2 * ny) * (cvy c2 - 2 * dot2 * ny) = cvx c2 * cvx c2 + cvy c2 * cvy c2"
    unfolding dot2_def by (rule reflect_norm [OF unit])
  define r1 where "r1 = c1\<lparr>cvx := cvx c1 - 2 * dot1 * nx, cvy := cvy c1 - 2 * dot1 * ny\<rparr>"
  define r2 where "r2 = c2\<lparr>cvx := cvx c2 - 2 * dot2 * nx, cvy := cvy c2 - 2 * dot2 * ny\<rparr>"
  have s1: "(if sqrt (cvx r1 * cvx r1 + cvy r1 * cvy r1) > 0 then
              do { ux \<leftarrow> fdiv (cvx r1) (sqrt (cvx r1 * cvx r1 + cvy r1 * cvy r1));
                   uy \<leftarrow> fdiv (cvy r1) (sqrt (cvx r1 * cvx r1 + cvy r1 * cvy r1));
                   Some (r1\<lparr>cvx := ux * sqrt (cvx c1 * cvx c1 + cvy c1 * cvy c1),
                            cvy := uy * sqrt (cvx c1 * cvx c1 + cvy c1 * cvy c1)\<rparr>) }
            else Some r1) = Some r1"
  proof -
    have e: "cvx r1 * cvx r1 + cvy r1 * cvy r1 = cvx c1 * cvx c1 + cvy c1 * cvy c1"
      using n1 by (simp add: r1_def)
    show ?thesis unfolding e by (simp add: fdiv_def r1_def)
  qed
  have s2: "(if sqrt (cvx r2 * cvx r2 + cvy r2 * cvy r2) > 0 then
              do { ux \<leftarrow> fdiv (cvx r2) (sqrt (cvx r2 * cvx r2 + cvy r2 * cvy r2));
                   uy \<leftarrow> fdiv (cvy r2) (sqrt (cvx r2 * cvx r2 + cvy r2 * cvy r2));
                   Some (r2\<lparr>cvx := ux * sqrt (cvx c2 * cvx c2 + cvy c2 * cvy c2),
                            cvy := uy * sqrt (cvx c2 * cvx c2 + cvy c2 * cvy c2)\<rparr>) }
            else Some r2) = Some r2"
  proof -
    have e: "cvx r2 * cvx r2 + cvy r2 * cvy r2 = cvx c2 * cvx c2 + cvy c2 * cvy c2"
      using n2 by (simp add: r2_def)
    show ?thesis unfolding e by (simp add: fdiv_def r2_def)
  qed
  have nz': "sqrt ((cx c2 - cx c1) * (cx c2 - cx c1) + (cy c2 - cy c1) * (cy c2 - cy c1)) \<noteq> 0"
    using nz by (simp add: d_def)
  show ?thesis
    unfolding applyBounce_def Let_def fx fy
    apply (simp only: nz' if_False bind.bind_lunit)
    apply (fold dot1_def dot2_def)
    apply (fold r1_def r2_def)
    apply (simp only: s1 s2 bind.bind_lunit)
    apply (simp add: r1_def r2_def overlap_def d_def)
    done
qed

lemma magneticBody_accumulates:
  "magneticBody c other tot
     = Some (fst tot + fst (forceContribution c other), snd tot + snd (forceContribution c other))"
  by (simp add: forceContribution_def magneticBody_def Let_def fdiv_def)

lemma foldO_magneticBody_sum:
  "foldO (magneticBody c) cs tot
     = Some (fst tot + sum_list (map (\<lambda>other. fst (forceContribution c other)) cs),
             snd tot + sum_list (map (\<lambda>other. snd (forceContribution c other)) cs))"
proof (induction cs arbitrary: tot)
  case Nil
  show ?case by simp
next
  case (Cons a cs)
  show ?case
    by (simp add: magneticBody_accumulates [of c a tot] Cons.IH add.assoc)
qed

lemma scaled_unit_norm:
  fixes k nx ny :: real
  assumes "nx * nx + ny * ny = 1" and "0 \<le> k"
  shows "sqrt ((k * nx) * (k * nx) + (k * ny) * (k * ny)) = k"
proof -
  have "(k * nx) * (k * nx) + (k * ny) * (k * ny) = (k * k) * (nx * nx + ny * ny)"
    by (simp add: algebra_simps)
  also have "\<dots> = k * k" using assms(1) by simp
  finally show ?thesis using assms(2) by simp
qed

lemma clamp_speed_aux:
  fixes vx vy m s :: real
  assumes ss: "s * s = vx * vx + vy * vy" and sp: "0 < s" and mp: "0 < m"
  shows "sqrt ((vx * (m / s)) * (vx * (m / s)) + (vy * (m / s)) * (vy * (m / s))) = m"
proof -
  define r where "r = m / s"
  have rs: "r * s = m" using sp by (simp add: r_def)
  have "(vx * r) * (vx * r) + (vy * r) * (vy * r) = (r * r) * (vx * vx + vy * vy)"
    by (simp add: algebra_simps)
  also have "\<dots> = (r * r) * (s * s)" by (simp only: ss)
  also have "\<dots> = (r * s) * (r * s)" by (simp add: algebra_simps)
  also have "\<dots> = m * m" by (simp only: rs)
  finally have "sqrt ((vx * r) * (vx * r) + (vy * r) * (vy * r)) = sqrt (m * m)" by simp
  then show ?thesis using mp by (simp add: r_def)
qed

lemma clamp_speed:
  fixes vx vy m :: real
  assumes "0 < m" and "sqrt (vx * vx + vy * vy) > m"
  shows "sqrt ((vx * (m / sqrt (vx * vx + vy * vy))) * (vx * (m / sqrt (vx * vx + vy * vy)))
             + (vy * (m / sqrt (vx * vx + vy * vy))) * (vy * (m / sqrt (vx * vx + vy * vy)))) = m"
proof (rule clamp_speed_aux)
  show "sqrt (vx * vx + vy * vy) * sqrt (vx * vx + vy * vy) = vx * vx + vy * vy" by simp
  show "0 < sqrt (vx * vx + vy * vy)" using assms by linarith
  show "0 < m" by (rule assms(1))
qed

lemma foldO_magneticBody_filter:
  "foldO (magneticBody c) cs tot
     = foldO (magneticBody c) (filter (\<lambda>other. ccolor other \<noteq> ccolor c) cs) tot"
proof (induction cs arbitrary: tot)
  case Nil
  show ?case by simp
next
  case (Cons a cs)
  show ?case
  proof (cases "ccolor a = ccolor c")
    case True
    then show ?thesis using Cons.IH by (simp add: magneticBody_same_color)
  next
    case False
    then show ?thesis using Cons.IH by (simp split: option.splits)
  qed
qed


lemma handleSquareBoundaries_bounds:
  fixes e :: GameEngine and c :: Circle
  defines "lft \<equiv> canvas_width e / 2 - PLAYFIELD_WIDTH e / 2 + csize c / 2"
  defines "rgt \<equiv> canvas_width e / 2 + PLAYFIELD_WIDTH e / 2 - csize c / 2"
  defines "tp \<equiv> canvas_height e / 2 - PLAYFIELD_HEIGHT e / 2 + csize c / 2"
  defines "btm \<equiv> canvas_height e / 2 + PLAYFIELD_HEIGHT e / 2 - csize c / 2"
  defines "c' \<equiv> handleSquareBoundaries e c"
  assumes fitw: "csize c \<le> PLAYFIELD_WIDTH e" and fith: "csize c \<le> PLAYFIELD_HEIGHT e"
  shows "lft \<le> cx c' \<and> cx c' \<le> rgt \<and> tp \<le> cy c' \<and> cy c' \<le> btm
       \<and> (cx c < lft \<longrightarrow> cvx c' = - cvx c \<and> cx c' = lft)
       \<and> (cx c > rgt \<longrightarrow> cvx c' = - cvx c \<and> cx c' = rgt)
       \<and> (cy c < tp \<longrightarrow> cvy c' = - cvy c \<and> cy c' = tp)
       \<and> (cy c > btm \<longrightarrow> cvy c' = - cvy c \<and> cy c' = btm)
       \<and> (lft < cx c \<and> cx c < rgt \<longrightarrow> cvx c' = cvx c \<and> cx c' = cx c)
       \<and> (tp < cy c \<and> cy c < btm \<longrightarrow> cvy c' = cvy c \<and> cy c' = cy c)"
proof -
  have lr: "lft \<le> rgt" using fitw by (simp add: lft_def rgt_def)
  have tb: "tp \<le> btm" using fith by (simp add: tp_def btm_def)
  show ?thesis
    using lr tb
    unfolding c'_def handleSquareBoundaries_def Let_def
    apply (fold lft_def rgt_def tp_def btm_def)
    apply (auto simp: max_def min_def)
    done
qed

lemma handleArenaBoundaries_circles_irrelevant:
  "handleArenaBoundaries (e\<lparr>circles := cs\<rparr>) c = handleArenaBoundaries e c"
  by (simp add: handleArenaBoundaries_def handleSquareBoundaries_def handleCircleBoundaries_def
        handleHexagonBoundaries_def handleTriangleBoundaries_def Let_def split: ArenaShape.splits)

lemma updateCircle_Some:
  assumes "updateCircle i e = Some e'"
  shows "\<exists>c1 c3. applyMagneticForces (circles e) (circles e ! i) = Some c1
           \<and> handleArenaBoundaries e (c1\<lparr>cx := cx c1 + cvx c1, cy := cy c1 + cvy c1\<rparr>) = Some c3
           \<and> e' = e\<lparr>circles := (circles e)[i := c3]\<rparr>"
  using assms
  by (auto simp: updateCircle_def Let_def split: bind_splits)

lemma updateCircles_prefix:
  assumes "foldO updateCircle [0..<m] e = Some em" and "m \<le> length (circles e)"
  shows "(\<exists>cs. em = e\<lparr>circles := cs\<rparr>)
       \<and> length (circles em) = length (circles e)
       \<and> drop m (circles em) = drop m (circles e)
       \<and> (\<forall>k<m. \<exists>c1. applyMagneticForces (take k (circles em) @ drop k (circles e)) (circles e ! k) = Some c1
              \<and> handleArenaBoundaries e (c1\<lparr>cx := cx c1 + cvx c1, cy := cy c1 + cvy c1\<rparr>)
                   = Some (circles em ! k))"
  using assms
proof (induction m arbitrary: em)
  case 0
  then show ?case by (simp add: exI [of _ "circles e"])
next
  case (Suc m)
  from Suc.prems(1) obtain e1 where e1: "foldO updateCircle [0..<m] e = Some e1"
    and st: "updateCircle m e1 = Some em"
    by (auto simp: foldO_append split: option.splits)
  from Suc.prems(2) have mlt: "m < length (circles e)" by simp
  from Suc.IH [OF e1] mlt
  obtain cs1 where rec: "e1 = e\<lparr>circles := cs1\<rparr>"
    and len0: "length (circles e1) = length (circles e)"
    and dr0: "drop m (circles e1) = drop m (circles e)"
    and hist0: "\<forall>k<m. \<exists>c1. applyMagneticForces (take k (circles e1) @ drop k (circles e)) (circles e ! k) = Some c1
              \<and> handleArenaBoundaries e (c1\<lparr>cx := cx c1 + cvx c1, cy := cy c1 + cvy c1\<rparr>)
                   = Some (circles e1 ! k)"
    by auto
  have c1s: "circles e1 = cs1" by (simp add: rec)
  note len = len0 [unfolded c1s] and dr = dr0 [unfolded c1s] and hist = hist0 [unfolded c1s]
  from updateCircle_Some [OF st] obtain c1 c3 where
    amf: "applyMagneticForces cs1 (cs1 ! m) = Some c1"
    and hab: "handleArenaBoundaries e1 (c1\<lparr>cx := cx c1 + cvx c1, cy := cy c1 + cvy c1\<rparr>) = Some c3"
    and em: "em = e1\<lparr>circles := cs1[m := c3]\<rparr>"
    unfolding c1s by blast
  have cem: "circles em = cs1[m := c3]" by (simp add: em)
  have hab': "handleArenaBoundaries e (c1\<lparr>cx := cx c1 + cvx c1, cy := cy c1 + cvy c1\<rparr>) = Some c3"
    using hab unfolding rec handleArenaBoundaries_circles_irrelevant .
  have "cs1 ! m = drop m cs1 ! 0" using mlt len by simp
  also have "\<dots> = drop m (circles e) ! 0" by (simp only: dr)
  also have "\<dots> = circles e ! m" using mlt by simp
  finally have nth_m: "cs1 ! m = circles e ! m" .
  have split1: "take m cs1 @ drop m (circles e) = cs1"
    by (simp only: dr [symmetric] append_take_drop_id)
  have a: "\<exists>cs. em = e\<lparr>circles := cs\<rparr>"
    by (rule exI [of _ "cs1[m := c3]"]) (simp add: em rec)
  have b: "length (circles em) = length (circles e)" using len cem by simp
  have "drop (Suc m) (circles em) = drop (Suc m) cs1" by (simp add: cem)
  also have "\<dots> = drop 1 (drop m cs1)" by simp
  also have "\<dots> = drop 1 (drop m (circles e))" by (simp only: dr)
  also have "\<dots> = drop (Suc m) (circles e)" by simp
  finally have c: "drop (Suc m) (circles em) = drop (Suc m) (circles e)" .
  have takek: "\<And>k. k \<le> m \<Longrightarrow> take k (circles em) = take k cs1"
    by (simp add: cem)
  have d: "\<forall>k<Suc m. \<exists>c1. applyMagneticForces (take k (circles em) @ drop k (circles e)) (circles e ! k) = Some c1
              \<and> handleArenaBoundaries e (c1\<lparr>cx := cx c1 + cvx c1, cy := cy c1 + cvy c1\<rparr>)
                   = Some (circles em ! k)"
  proof (intro allI impI)
    fix k assume "k < Suc m"
    then consider "k < m" | "k = m" by linarith
    then show "\<exists>c1. applyMagneticForces (take k (circles em) @ drop k (circles e)) (circles e ! k) = Some c1
              \<and> handleArenaBoundaries e (c1\<lparr>cx := cx c1 + cvx c1, cy := cy c1 + cvy c1\<rparr>)
                   = Some (circles em ! k)"
    proof cases
      case 1
      then have "circles em ! k = cs1 ! k" by (simp add: cem)
      moreover have "take k (circles em) = take k cs1" using 1 takek by simp
      ultimately show ?thesis using hist 1 by simp
    next
      case 2
      have "take m (circles em) @ drop m (circles e) = cs1"
        using takek [of m] split1 by simp
      moreover have "circles em ! m = c3" using cem mlt len by simp
      ultimately show ?thesis using amf hab' nth_m 2 by simp
    qed
  qed
  from a b c d show ?case by blast
qed

lemma foldO_total_inv:
  assumes "I s" and "\<And>a s. I s \<Longrightarrow> \<exists>s'. f a s = Some s' \<and> I s'"
  shows "\<exists>s'. foldO f xs s = Some s' \<and> I s'"
  using assms(1)
proof (induction xs arbitrary: s)
  case Nil
  then show ?case by simp
next
  case (Cons a xs)
  from assms(2) [OF Cons.prems] obtain s1 where "f a s = Some s1" and "I s1" by blast
  with Cons.IH [of s1] show ?case by simp
qed

lemma applyMagneticForces_static:
  assumes "applyMagneticForces cs c = Some c1"
  shows "cid c1 = cid c \<and> ccolor c1 = ccolor c \<and> csize c1 = csize c \<and> cx c1 = cx c \<and> cy c1 = cy c"
  using assms by (auto simp: applyMagneticForces_def Let_def split: bind_splits if_splits)

lemma handleSquareBoundaries_static:
  "cid (handleSquareBoundaries e c) = cid c \<and> ccolor (handleSquareBoundaries e c) = ccolor c
   \<and> csize (handleSquareBoundaries e c) = csize c"
  by (simp add: handleSquareBoundaries_def Let_def)

lemma updateCircle_total_square:
  assumes "shape (currentArena e) = Square"
  shows "\<exists>e'. updateCircle i e = Some e' \<and> shape (currentArena e') = Square"
proof -
  obtain c1 where "applyMagneticForces (circles e) (circles e ! i) = Some c1"
    using applyMagneticForces_total by blast
  then show ?thesis using assms
    by (simp add: updateCircle_def handleArenaBoundaries_def Let_def)
qed

lemma updateCircles_total_square:
  assumes "shape (currentArena e) = Square"
  shows "\<exists>e'. updateCircles e = Some e'"
  using foldO_total_inv [of "\<lambda>e. shape (currentArena e) = Square" e updateCircle
          "[0..<length (circles e)]"] assms updateCircle_total_square
  unfolding updateCircles_def by blast

lemma upt2: "[0..<Suc (Suc 0)] = [0, Suc 0]" by (simp add: upt_rec)

lemma sq1: "sqrt (81 / 10000) = (9 / 100 :: real)"
  by (rule real_sqrt_unique) (simp_all add: power2_eq_square)
lemma sq2: "sqrt (8946081 / 10000) = (2991 / 100 :: real)"
  by (rule real_sqrt_unique) (simp_all add: power2_eq_square)

lemma sq3: "sqrt (2259009 / 156250000) = (1503 / 12500 :: real)"
  by (rule real_sqrt_unique) (simp_all add: power2_eq_square)
lemma sq4: "sqrt (9 / 625) = (3 / 25 :: real)"
  by (rule real_sqrt_unique) (simp_all add: power2_eq_square)


lemma sameHost_refl: "sameHost e e" by (simp add: sameHost_def)

lemma sameHost_trans: "sameHost a b \<Longrightarrow> sameHost b c \<Longrightarrow> sameHost a c"
  by (simp add: sameHost_def)

lemma fold_collisionParticle:
  "circles (fold (collisionParticle w a b x y) xs e) = circles e
   \<and> sameHost e (fold (collisionParticle w a b x y) xs e)"
proof (induction xs arbitrary: e)
  case Nil
  show ?case by (simp add: sameHost_refl)
next
  case (Cons i xs)
  have st: "circles (collisionParticle w a b x y i e) = circles e
            \<and> sameHost e (collisionParticle w a b x y i e)"
    by (simp add: collisionParticle_def Let_def sameHost_def)
  from Cons.IH [of "collisionParticle w a b x y i e"] st show ?case
    by (auto intro: sameHost_trans)
qed

lemma createCollisionParticles_keeps:
  "circles (createCollisionParticles w a b e) = circles e
   \<and> sameHost e (createCollisionParticles w a b e)"
  unfolding createCollisionParticles_def Let_def by (rule fold_collisionParticle)

lemma fold_splitParticle:
  "circles (fold (splitParticle w a) xs e) = circles e
   \<and> sameHost e (fold (splitParticle w a) xs e)"
proof (induction xs arbitrary: e)
  case Nil
  show ?case by (simp add: sameHost_refl)
next
  case (Cons i xs)
  have st: "circles (splitParticle w a i e) = circles e \<and> sameHost e (splitParticle w a i e)"
    by (simp add: splitParticle_def Let_def sameHost_def)
  from Cons.IH [of "splitParticle w a i e"] st show ?case
    by (auto intro: sameHost_trans)
qed

lemma createSplitParticles_keeps:
  "circles (createSplitParticles w a e) = circles e \<and> sameHost e (createSplitParticles w a e)"
  unfolding createSplitParticles_def by (rule fold_splitParticle)

lemma createSplitCircle_keeps:
  "circles (snd (createSplitCircle w a e)) = circles e
   \<and> sameHost e (snd (createSplitCircle w a e))
   \<and> ccolor (fst (createSplitCircle w a e)) = ccolor a
   \<and> csize (fst (createSplitCircle w a e)) = CIRCLE_SIZE"
  by (simp add: createSplitCircle_def Let_def sameHost_def)

lemma applyBounce_static:
  assumes "applyBounce c1 c2 = Some (b1, b2)"
  shows "cid b1 = cid c1 \<and> ccolor b1 = ccolor c1 \<and> csize b1 = csize c1
       \<and> cid b2 = cid c2 \<and> ccolor b2 = ccolor c2 \<and> csize b2 = csize c2"
proof (cases "sqrt ((cx c2 - cx c1) * (cx c2 - cx c1) + (cy c2 - cy c1) * (cy c2 - cy c1)) = 0")
  case True
  then show ?thesis using assms by (simp add: applyBounce_def)
next
  case False
  from applyBounce_explicit [OF False] assms show ?thesis
    by (auto split: if_splits)
qed

lemma resolveBattle_cases:
  assumes "ccolor a \<noteq> ccolor b"
  shows "resolveBattle a b = (Some a, Some b) \<and> beats (ccolor a) (ccolor b)
       \<or> resolveBattle a b = (Some b, Some a) \<and> beats (ccolor b) (ccolor a)"
  using assms by (cases "ccolor a"; cases "ccolor b") (simp_all add: resolveBattle_def)

lemma map_update_same:
  assumes "i < length xs" and "f y = f (xs ! i)"
  shows "map f (xs[i := y]) = map f xs"
  using assms by (simp add: map_update list_update_same_conv)

lemma collidePair_battle:
  assumes i: "i < length (circles (eng s))" and j: "j < length (circles (eng s))" and ij: "i \<noteq> j"
    and nr1: "cid (circles (eng s) ! i) \<notin> toRemove s"
    and nr2: "cid (circles (eng s) ! j) \<notin> toRemove s"
    and col: "isColliding (circles (eng s) ! i) (circles (eng s) ! j)"
    and dif: "ccolor (circles (eng s) ! i) \<noteq> ccolor (circles (eng s) ! j)"
  shows "\<exists>b1 b2 iw il e4 nc.
           applyBounce (circles (eng s) ! i) (circles (eng s) ! j) = Some (b1, b2)
         \<and> (iw = i \<and> il = j \<or> iw = j \<and> il = i)
         \<and> beats (ccolor (circles (eng s) ! iw)) (ccolor (circles (eng s) ! il))
         \<and> collidePair w i j s
             = Some (s\<lparr>eng := e4, toRemove := insert (cid (circles (eng s) ! il)) (toRemove s),
                       toAdd := toAdd s @ [nc]\<rparr>)
         \<and> circles e4 = (circles (eng s))[i := b1, j := b2]
         \<and> sameHost (eng s) e4
         \<and> ccolor nc = ccolor (circles (eng s) ! iw) \<and> csize nc = CIRCLE_SIZE"
proof -
  let ?c1 = "circles (eng s) ! i" and ?c2 = "circles (eng s) ! j"
  obtain b1 b2 where ab: "applyBounce ?c1 ?c2 = Some (b1, b2)"
    using applyBounce_total [of ?c1 ?c2] by auto
  note st = applyBounce_static [OF ab]
  define e1 where "e1 = (eng s)\<lparr>circles := (circles (eng s))[i := b1, j := b2]\<rparr>"
  define e2 where "e2 = createCollisionParticles w b1 b2 e1"
  have e2c: "circles e2 = (circles (eng s))[i := b1, j := b2]" and e2h: "sameHost (eng s) e2"
    using createCollisionParticles_keeps [of w b1 b2 e1]
    by (simp_all add: e2_def e1_def sameHost_def)
  have dif': "ccolor b1 \<noteq> ccolor b2" using st dif by simp
  from resolveBattle_cases [OF dif'] show ?thesis
  proof
    assume rb: "resolveBattle b1 b2 = (Some b1, Some b2) \<and> beats (ccolor b1) (ccolor b2)"
    define e3 where "e3 = createSplitParticles w b1 e2"
    define nc where "nc = fst (createSplitCircle w b1 e3)"
    define e4 where "e4 = snd (createSplitCircle w b1 e3)"
    have k3: "circles e3 = circles e2" "sameHost e2 e3"
      using createSplitParticles_keeps [of w b1 e2] by (simp_all add: e3_def)
    have k4: "circles e4 = circles e3" "sameHost e3 e4" "ccolor nc = ccolor b1" "csize nc = CIRCLE_SIZE"
      using createSplitCircle_keeps [of w b1 e3] by (simp_all add: e4_def nc_def)
    have cp: "collidePair w i j s
             = Some (s\<lparr>eng := e4, toRemove := insert (cid ?c2) (toRemove s), toAdd := toAdd s @ [nc]\<rparr>)"
      using nr1 nr2 col dif ab rb st
      by (simp add: collidePair_def Let_def e1_def [symmetric] e2_def [symmetric]
            e3_def [symmetric] nc_def e4_def split_beta)
    have "sameHost (eng s) e4" using e2h k3(2) k4(2) by (blast intro: sameHost_trans)
    with cp ab rb st k3 k4 e2c show ?thesis by force
  next
    assume rb: "resolveBattle b1 b2 = (Some b2, Some b1) \<and> beats (ccolor b2) (ccolor b1)"
    define e3 where "e3 = createSplitParticles w b2 e2"
    define nc where "nc = fst (createSplitCircle w b2 e3)"
    define e4 where "e4 = snd (createSplitCircle w b2 e3)"
    have k3: "circles e3 = circles e2" "sameHost e2 e3"
      using createSplitParticles_keeps [of w b2 e2] by (simp_all add: e3_def)
    have k4: "circles e4 = circles e3" "sameHost e3 e4" "ccolor nc = ccolor b2" "csize nc = CIRCLE_SIZE"
      using createSplitCircle_keeps [of w b2 e3] by (simp_all add: e4_def nc_def)
    have cp: "collidePair w i j s
             = Some (s\<lparr>eng := e4, toRemove := insert (cid ?c1) (toRemove s), toAdd := toAdd s @ [nc]\<rparr>)"
      using nr1 nr2 col dif ab rb st
      by (simp add: collidePair_def Let_def e1_def [symmetric] e2_def [symmetric]
            e3_def [symmetric] nc_def e4_def split_beta)
    have "sameHost (eng s) e4" using e2h k3(2) k4(2) by (blast intro: sameHost_trans)
    with cp ab rb st k3 k4 e2c show ?thesis by force
  qed
qed

lemma foldO_total_inv_set:
  assumes "I s" and "\<And>a s. a \<in> set xs \<Longrightarrow> I s \<Longrightarrow> \<exists>s'. f a s = Some s' \<and> I s'"
  shows "\<exists>s'. foldO f xs s = Some s' \<and> I s'"
  using assms
proof (induction xs arbitrary: s)
  case Nil
  then show ?case by simp
next
  case (Cons a xs)
  from Cons.prems(2) [of a s] Cons.prems(1) obtain s1 where s1: "f a s = Some s1" "I s1"
    by auto
  have "\<exists>s'. foldO f xs s1 = Some s' \<and> I s'"
    by (rule Cons.IH [OF s1(2)]) (use Cons.prems(2) in auto)
  with s1 show ?case by simp
qed

lemma collidePair_inv:
  assumes i: "i < length (circles e0)" and j: "j < length (circles e0)" and ij: "i \<noteq> j"
    and inv: "scanInv e0 s"
  shows "\<exists>s'. collidePair w i j s = Some s' \<and> scanInv e0 s'"
proof -
  let ?cs = "circles (eng s)"
  from inv have ids: "map cid ?cs = map cid (circles e0)"
    and cols: "map ccolor ?cs = map ccolor (circles e0)"
    and szs: "map csize ?cs = map csize (circles e0)"
    and host: "sameHost e0 (eng s)"
    and fin: "finite (toRemove s)"
    and sub: "toRemove s \<subseteq> set (map cid (circles e0))"
    and crd: "card (toRemove s) = length (toAdd s)"
    by (simp_all add: scanInv_def)
  have len: "length ?cs = length (circles e0)" using ids by (metis length_map)
  have i': "i < length ?cs" and j': "j < length ?cs" using i j len by simp_all
  show ?thesis
  proof (cases "cid (?cs ! i) \<notin> toRemove s \<and> cid (?cs ! j) \<notin> toRemove s
                \<and> isColliding (?cs ! i) (?cs ! j) \<and> ccolor (?cs ! i) \<noteq> ccolor (?cs ! j)")
    case False
    then have "collidePair w i j s = Some s"
      by (auto simp: collidePair_def Let_def)
    with inv show ?thesis by simp
  next
    case True
    from collidePair_battle [OF i' j' ij, of w] True
    obtain b1 b2 iw il e4 nc where
      ab: "applyBounce (?cs ! i) (?cs ! j) = Some (b1, b2)"
      and wl: "iw = i \<and> il = j \<or> iw = j \<and> il = i"
      and cp: "collidePair w i j s
             = Some (s\<lparr>eng := e4, toRemove := insert (cid (?cs ! il)) (toRemove s),
                       toAdd := toAdd s @ [nc]\<rparr>)"
      and c4: "circles e4 = ?cs[i := b1, j := b2]"
      and h4: "sameHost (eng s) e4"
      by blast
    note st = applyBounce_static [OF ab]
    have j2: "j < length (?cs[i := b1])" using j' by simp
    have nj: "?cs[i := b1] ! j = ?cs ! j" using ij by simp
    have m1: "map cid (?cs[i := b1, j := b2]) = map cid ?cs"
      using st i' j2 nj by (simp add: map_update_same)
    have m2: "map ccolor (?cs[i := b1, j := b2]) = map ccolor ?cs"
      using st i' j2 nj by (simp add: map_update_same)
    have m3: "map csize (?cs[i := b1, j := b2]) = map csize ?cs"
      using st i' j2 nj by (simp add: map_update_same)
    have il: "il < length ?cs" using wl i' j' by auto
    have notin: "cid (?cs ! il) \<notin> toRemove s" using True wl by auto
    have "cid (?cs ! il) \<in> set (map cid ?cs)" using il by (metis length_map nth_map nth_mem)
    then have mem: "cid (?cs ! il) \<in> set (map cid (circles e0))" using ids by simp
    have "scanInv e0 (s\<lparr>eng := e4, toRemove := insert (cid (?cs ! il)) (toRemove s),
                       toAdd := toAdd s @ [nc]\<rparr>)"
      unfolding scanInv_def
      using m1 m2 m3 c4 ids cols szs fin sub crd notin mem sameHost_trans [OF host h4]
      by simp
    with cp show ?thesis by simp
  qed
qed

lemma collisionScan_inv:
  "\<exists>s. collisionScan w e = Some s \<and> scanInv e s"
proof -
  let ?n = "length (circles e)"
  let ?s0 = "\<lparr>eng = e, toRemove = {}, toAdd = []\<rparr>"
  have inv0: "scanInv e ?s0" by (simp add: scanInv_def sameHost_refl)
  have inner: "\<exists>s'. foldO (collidePair w i) [i + 1..<?n] s = Some s' \<and> scanInv e s'"
    if "i \<in> set [0..<?n]" and "scanInv e s" for i s
  proof (rule foldO_total_inv_set [where I = "scanInv e", OF that(2)])
    fix j s1 assume "j \<in> set [i + 1..<?n]" and "scanInv e s1"
    with that(1) show "\<exists>s'. collidePair w i j s1 = Some s' \<and> scanInv e s'"
      by (intro collidePair_inv) auto
  qed
  have "\<exists>s'. foldO (\<lambda>i. foldO (collidePair w i) [i + 1..<?n]) [0..<?n] ?s0 = Some s' \<and> scanInv e s'"
    by (rule foldO_total_inv_set [where I = "scanInv e", OF inv0]) (rule inner)
  then show ?thesis by (simp add: collisionScan_def Let_def)
qed


lemma checkCollisions_total_host:
  "\<exists>e'. checkCollisions w e = Some e' \<and> sameHost e e'"
proof -
  from collisionScan_inv [of w e] obtain s where s: "collisionScan w e = Some s" and inv: "scanInv e s"
    by blast
  from inv have "sameHost e (eng s)" by (simp add: scanInv_def)
  then show ?thesis by (simp add: checkCollisions_def s sameHost_def)
qed



lemma fold_counts:
  "fold (\<lambda>circle counts. counts(ccolor circle := counts (ccolor circle) + 1)) cs g C
     = g C + length (filter (\<lambda>c. ccolor c = C) cs)"
  by (induction cs arbitrary: g) auto

lemma getColorCounts_filter:
  "getColorCounts e C = length (filter (\<lambda>c. ccolor c = C) (circles e))"
  unfolding getColorCounts_def by (subst fold_counts) simp

lemma all_colors: "(\<forall>D. P D) \<longleftrightarrow> P Blue \<and> P Red \<and> P Green"
proof
  assume "\<forall>D. P D" then show "P Blue \<and> P Red \<and> P Green" by simp
next
  assume a: "P Blue \<and> P Red \<and> P Green"
  show "\<forall>D. P D"
  proof
    fix D show "P D" using a by (cases D) simp_all
  qed
qed

lemma checkWinCondition_fires_iff:
  "gameEnds (checkWinCondition e) = gameEnds e @ [C]
     \<longleftrightarrow> 0 < getColorCounts e C \<and> (\<forall>D. D \<noteq> C \<longrightarrow> getColorCounts e D = 0)"
  unfolding all_colors
  by (cases C; cases "getColorCounts e Blue = 0"; cases "getColorCounts e Red = 0";
      cases "getColorCounts e Green = 0")
     (simp_all add: checkWinCondition_def Let_def)

lemma checkWinCondition_effect:
  "checkWinCondition e = e
   \<or> (\<exists>D. checkWinCondition e = e\<lparr>isRunning := False, gameEnds := gameEnds e @ [D]\<rparr>)"
  by (auto simp: checkWinCondition_def Let_def)

lemma checkWinCondition_empty:
  "circles e = [] \<Longrightarrow> checkWinCondition e = e"
  by (simp add: checkWinCondition_def Let_def getColorCounts_def)

lemma updateCircles_host:
  assumes "updateCircles e = Some e1"
  shows "sameHost e e1"
proof -
  from updateCircles_prefix [OF assms [unfolded updateCircles_def] le_refl]
  obtain cs where "e1 = e\<lparr>circles := cs\<rparr>" by blast
  then show ?thesis by (simp add: sameHost_def)
qed

lemma updateParticles_host: "sameHost e (updateParticles e)"
  by (simp add: sameHost_def updateParticles_def)

lemma gameLoop_stopped: "\<not> isRunning e \<Longrightarrow> gameLoop w e = Some e"
  by (simp add: gameLoop_def)

lemma gameLoop_step:
  assumes "gameLoop w e = Some e'" and "isRunning e"
  shows "(isRunning e' \<and> gameEnds e' = gameEnds e)
       \<or> (\<not> isRunning e' \<and> (\<exists>D. gameEnds e' = gameEnds e @ [D]))"
proof -
  from assms obtain e1 e3 where u: "updateCircles e = Some e1"
    and c: "checkCollisions w (updateParticles e1) = Some e3"
    and e': "e' = (checkWinCondition e3)\<lparr>animationId := Some (rafCount (checkWinCondition e3) + 1),
                                          rafCount := rafCount (checkWinCondition e3) + 1\<rparr>"
    by (auto simp: gameLoop_def Let_def split: bind_splits)
  from checkCollisions_total_host [of w "updateParticles e1"] c
  have h3: "sameHost (updateParticles e1) e3" by simp
  have h: "sameHost e e3"
    using updateCircles_host [OF u] updateParticles_host [of e1] h3
    by (blast intro: sameHost_trans)
  then have r3: "isRunning e3" and g3: "gameEnds e3 = gameEnds e"
    using assms(2) by (simp_all add: sameHost_def)
  from checkWinCondition_effect [of e3] show ?thesis
  proof
    assume "checkWinCondition e3 = e3"
    then show ?thesis using e' r3 g3 by simp
  next
    assume "\<exists>D. checkWinCondition e3 = e3\<lparr>isRunning := False, gameEnds := gameEnds e3 @ [D]\<rparr>"
    then obtain D where "checkWinCondition e3 = e3\<lparr>isRunning := False, gameEnds := gameEnds e3 @ [D]\<rparr>"
      by blast
    then show ?thesis using e' g3 by simp
  qed
qed

lemma frames_stopped: "\<not> isRunning e \<Longrightarrow> frames w n e = Some e"
  by (induction n) (simp_all add: gameLoop_stopped)

lemma frames_at_most_once:
  assumes "frames w n e = Some e'"
  shows "gameEnds e' = gameEnds e \<or> (\<not> isRunning e' \<and> (\<exists>D. gameEnds e' = gameEnds e @ [D]))"
  using assms
proof (induction n arbitrary: e)
  case 0
  then show ?case by simp
next
  case (Suc n)
  from Suc.prems obtain e1 where g: "gameLoop w e = Some e1" and f: "frames w n e1 = Some e'"
    by (auto split: option.splits)
  show ?case
  proof (cases "isRunning e")
    case False
    then have "e1 = e" using g by (simp add: gameLoop_stopped)
    with Suc.IH [OF f] show ?thesis by simp
  next
    case True
    from gameLoop_step [OF g True] show ?thesis
    proof
      assume a: "isRunning e1 \<and> gameEnds e1 = gameEnds e"
      with Suc.IH [OF f] show ?thesis by simp
    next
      assume a: "\<not> isRunning e1 \<and> (\<exists>D. gameEnds e1 = gameEnds e @ [D])"
      then have "frames w n e1 = Some e1" by (simp add: frames_stopped)
      with f have "e' = e1" by simp
      with a show ?thesis by simp
    qed
  qed
qed

lemma gameLoop_total_square:
  assumes "shape (currentArena e) = Square"
  shows "\<exists>e'. gameLoop w e = Some e' \<and> shape (currentArena e') = Square"
proof (cases "isRunning e")
  case False
  then show ?thesis using assms by (simp add: gameLoop_stopped)
next
  case True
  from updateCircles_total_square [OF assms] obtain e1 where u: "updateCircles e = Some e1" by blast
  from checkCollisions_total_host [of w "updateParticles e1"] obtain e3 where
    c: "checkCollisions w (updateParticles e1) = Some e3" and h3: "sameHost (updateParticles e1) e3"
    by blast
  have h: "sameHost e e3"
    using updateCircles_host [OF u] updateParticles_host [of e1] h3
    by (blast intro: sameHost_trans)
  then have a3: "currentArena e3 = currentArena e" by (simp add: sameHost_def)
  have "currentArena (checkWinCondition e3) = currentArena e3"
    using checkWinCondition_effect [of e3] by auto
  then show ?thesis using True u c a3 assms
    by (simp add: gameLoop_def Let_def)
qed

lemma frames_total_square:
  assumes "shape (currentArena e) = Square"
  shows "\<exists>e'. frames w n e = Some e'"
  using assms
proof (induction n arbitrary: e)
  case 0
  show ?case by simp
next
  case (Suc n)
  from gameLoop_total_square [OF Suc.prems, of w] obtain e1 where
    "gameLoop w e = Some e1" "shape (currentArena e1) = Square" by blast
  with Suc.IH [of e1] show ?case by simp
qed

lemma upt1: "[0..<Suc 0] = [0]" by simp

lemma frames_engineA:
  "frames world0 (Suc (Suc 0)) (engineOf [circleA]) = Some engineA1"
  by (simp add: gameLoop_def updateCircles_def updateCircle_def applyMagneticForces_def
        magneticBody_def handleArenaBoundaries_def handleSquareBoundaries_def
        updateParticles_def checkCollisions_def collisionScan_def checkWinCondition_def
        getColorCounts_def Let_def SPEED_def
        engineOf_def engineA1_def circleA_def arena0_def)





















lemma sqrt_clamped: "sqrt (81 / 4) = (9 / 2 :: real)"
  by (rule real_sqrt_unique) (simp_all add: power2_eq_square)


text \<open>
  C2. The dominance relation is a pure 3-cycle: of two distinct colours exactly one beats
  the other, no colour beats itself, the three beats form the cycle blue, red, green, blue;
  resolveBattle names as winner the circle whose colour beats the other's (and no winner
  when neither does); getColorRelationship is attraction exactly when the agent's colour
  beats the other's and repulsion exactly when the other's beats the agent's.
\<close>

theorem color_relation_three_cycle:
  "(a \<noteq> b \<longrightarrow> (beats a b \<noteq> beats b a))
   \<and> \<not> beats a a
   \<and> beats Blue Red \<and> beats Red Green \<and> beats Green Blue
   \<and> resolveBattle c1 c2 =
       (if beats (ccolor c1) (ccolor c2) then (Some c1, Some c2)
        else if beats (ccolor c2) (ccolor c1) then (Some c2, Some c1)
        else (None, None))
   \<and> (getColorRelationship a b = Attraction \<longleftrightarrow> beats a b)
   \<and> (getColorRelationship a b = Repulsion \<longleftrightarrow> beats b a)"
proof -
  have cyc: "a \<noteq> b \<longrightarrow> (beats a b \<noteq> beats b a)"
    by (cases a; cases b) simp_all
  have irr: "\<not> beats a a"
    by (cases a) simp_all
  have rb: "resolveBattle c1 c2 =
       (if beats (ccolor c1) (ccolor c2) then (Some c1, Some c2)
        else if beats (ccolor c2) (ccolor c1) then (Some c2, Some c1)
        else (None, None))"
    by (cases "ccolor c1"; cases "ccolor c2") (simp_all add: resolveBattle_def)
  have att: "getColorRelationship a b = Attraction \<longleftrightarrow> beats a b"
    by (cases a; cases b) (simp_all add: getColorRelationship_def)
  have rep: "getColorRelationship a b = Repulsion \<longleftrightarrow> beats b a"
    by (cases a; cases b) (simp_all add: getColorRelationship_def)
  from cyc irr rb att rep show ?thesis by simp
qed

theorem color_relation_three_cycle_witness:
  "Green \<noteq> Blue \<and> beats Green Blue \<and> \<not> beats Blue Green
   \<and> getColorRelationship Green Blue = Attraction
   \<and> getColorRelationship Blue Green = Repulsion"
  using color_relation_three_cycle [of Green Blue]
        color_relation_three_cycle [of Blue Green]
  by simp

text \<open>
  C8. When the centres of the two circles do not coincide, applyBounce reflects each circle's
  velocity about the collision normal (the unit vector from circle1 to circle2), and the
  speed of each circle after the call is its speed before the call.
\<close>

theorem applyBounce_preserves_speed:
  fixes c1 c2 :: Circle
  defines "d \<equiv> sqrt ((cx c2 - cx c1) * (cx c2 - cx c1) + (cy c2 - cy c1) * (cy c2 - cy c1))"
  defines "nx \<equiv> (cx c2 - cx c1) / d"
  defines "ny \<equiv> (cy c2 - cy c1) / d"
  assumes apart: "cx c1 \<noteq> cx c2 \<or> cy c1 \<noteq> cy c2"
  shows "\<exists>b1 b2. applyBounce c1 c2 = Some (b1, b2)
           \<and> cvx b1 = cvx c1 - 2 * (cvx c1 * nx + cvy c1 * ny) * nx
           \<and> cvy b1 = cvy c1 - 2 * (cvx c1 * nx + cvy c1 * ny) * ny
           \<and> cvx b2 = cvx c2 - 2 * (cvx c2 * nx + cvy c2 * ny) * nx
           \<and> cvy b2 = cvy c2 - 2 * (cvx c2 * nx + cvy c2 * ny) * ny
           \<and> sqrt (cvx b1 * cvx b1 + cvy b1 * cvy b1) = sqrt (cvx c1 * cvx c1 + cvy c1 * cvy c1)
           \<and> sqrt (cvx b2 * cvx b2 + cvy b2 * cvy b2) = sqrt (cvx c2 * cvx c2 + cvy c2 * cvy c2)"
proof -
  have nz: "d \<noteq> 0"
    using apart by (auto simp: d_def sum_squares_eq_zero_iff)
  have unit: "nx * nx + ny * ny = 1"
    unfolding nx_def ny_def d_def by (rule unit_normal) (use nz in \<open>simp add: d_def\<close>)
  note n1 = reflect_norm [OF unit, of "cvx c1" "cvy c1"]
  note n2 = reflect_norm [OF unit, of "cvx c2" "cvy c2"]
  note ex = applyBounce_explicit [of c2 c1, OF nz [unfolded d_def], folded d_def, folded nx_def ny_def]
  show ?thesis
    unfolding ex using n1 n2 by (cases "0 < (csize c1 + csize c2) / 2 - d") simp_all
qed

theorem applyBounce_preserves_speed_witness:
  "cx circleA \<noteq> cx circleB
   \<and> (\<exists>b1 b2. applyBounce circleA circleB = Some (b1, b2)
        \<and> cvx b1 = - 2 \<and> cvx b2 = 2
        \<and> sqrt (cvx b1 * cvx b1 + cvy b1 * cvy b1) = 2
        \<and> sqrt (cvx b2 * cvx b2 + cvy b2 * cvy b2) = 2)"
  using applyBounce_preserves_speed [of circleA circleB]
  by (simp add: circleA_def circleB_def) blast


text \<open>
  C10. The force field and the bounce never divide by zero: applyMagneticForces and
  applyBounce return a result on every input. When the centres of two circles coincide, the
  pair adds nothing to the force accumulators and the bounce leaves both circles as they are.
\<close>

theorem no_division_by_zero_distance:
  "(\<exists>c'. applyMagneticForces cs c = Some c')
   \<and> (\<exists>b1 b2. applyBounce c1 c2 = Some (b1, b2))
   \<and> (cx c1 = cx c2 \<and> cy c1 = cy c2 \<longrightarrow>
        magneticBody c1 c2 tot = Some tot \<and> applyBounce c1 c2 = Some (c1, c2))"
  using applyMagneticForces_total [of cs c] applyBounce_total [of c1 c2]
        magneticBody_coincident [of c1 c2 tot] applyBounce_coincident [of c1 c2]
  by auto

theorem no_division_by_zero_distance_witness:
  "cx circleA = cx circleC \<and> cy circleA = cy circleC
   \<and> magneticBody circleA circleC (0, 0) = Some (0, 0)
   \<and> applyBounce circleA circleC = Some (circleA, circleC)
   \<and> (\<exists>c'. applyMagneticForces [circleA, circleC] circleA = Some c')"
  using no_division_by_zero_distance [of "[circleA, circleC]" circleA circleA circleC "(0, 0)"]
  by (simp add: circleA_def circleC_def)


text \<open>
  C6. Circles of the same colour do not change each other's velocity, at any distance: the
  force field gives the same result with all circles of the current circle's colour removed
  from the list (a same-coloured circle leaves the accumulators as they are), and the
  collision step leaves the whole scan state unchanged on a pair of equal colours.
\<close>

theorem same_color_no_interaction:
  "applyMagneticForces cs c
     = applyMagneticForces (filter (\<lambda>other. ccolor other \<noteq> ccolor c) cs) c
   \<and> (ccolor other = ccolor c \<longrightarrow> magneticBody c other tot = Some tot)
   \<and> (ccolor (circles (eng s) ! i) = ccolor (circles (eng s) ! j) \<longrightarrow>
        collidePair w i j s = Some s)"
proof -
  have a: "applyMagneticForces cs c
     = applyMagneticForces (filter (\<lambda>other. ccolor other \<noteq> ccolor c) cs) c"
    unfolding applyMagneticForces_def
    by (subst foldO_magneticBody_filter) (rule refl)
  have b: "ccolor other = ccolor c \<longrightarrow> magneticBody c other tot = Some tot"
    by (simp add: magneticBody_same_color)
  have c: "ccolor (circles (eng s) ! i) = ccolor (circles (eng s) ! j) \<longrightarrow>
        collidePair w i j s = Some s"
    by (simp add: collidePair_def Let_def)
  from a b c show ?thesis by blast
qed

theorem same_color_no_interaction_witness:
  "ccolor circleD = ccolor circleA
   \<and> ccolor (circles (eng \<lparr>eng = engineOf [circleA, circleD], toRemove = {}, toAdd = []\<rparr>) ! 0)
       = ccolor (circles (eng \<lparr>eng = engineOf [circleA, circleD], toRemove = {}, toAdd = []\<rparr>) ! 1)
   \<and> magneticBody circleA circleD (0, 0) = Some (0, 0)
   \<and> collidePair world0 0 1 \<lparr>eng = engineOf [circleA, circleD], toRemove = {}, toAdd = []\<rparr>
       = Some \<lparr>eng = engineOf [circleA, circleD], toRemove = {}, toAdd = []\<rparr>"
  using same_color_no_interaction
          [where c = circleA and other = circleD and tot = "(0, 0)" and i = 0 and j = 1
             and s = "\<lparr>eng = engineOf [circleA, circleD], toRemove = {}, toAdd = []\<rparr>"
             and w = world0]
  by (simp add: circleA_def circleD_def engineOf_def)

text \<open>
  C9. For a circle and another circle of a different colour (and id) at a distance d with
  0 < d and d at most the interaction radius, the pair adds to the force accumulators the
  unit vector towards the other circle times ATTRACTION_FORCE * (1 - d / MAGNETIC_RANGE)
  when the circle's colour beats the other's, and subtracts that unit vector times
  REPULSION_FORCE * (1 - d / MAGNETIC_RANGE) when the other's colour beats the circle's; the
  magnitude of the contribution is that factor, linear in d and zero at the radius. The
  accumulators end as the sum of the contributions, and applyMagneticForces sets the
  velocity to the old velocity plus that sum, scaled by a factor r with 0 < r and r at most 1
  (so the direction is kept) such that the speed is at most 1.8 times SPEED; r is 1 when
  the unscaled speed is within that bound, and otherwise r is 1.8 times SPEED divided by the
  unscaled speed and the new speed is exactly 1.8 times SPEED.
\<close>

theorem force_field_law:
  fixes c other :: Circle and cs :: "Circle list" and tot :: "real \<times> real"
  defines "dx \<equiv> cx other - cx c"
  defines "dy \<equiv> cy other - cy c"
  defines "d \<equiv> sqrt (dx * dx + dy * dy)"
  defines "falloff \<equiv> 1 - d / MAGNETIC_RANGE"
  defines "tx \<equiv> sum_list (map (\<lambda>other. fst (forceContribution c other)) cs)"
  defines "ty \<equiv> sum_list (map (\<lambda>other. snd (forceContribution c other)) cs)"
  shows
    "(cid c \<noteq> cid other \<and> ccolor c \<noteq> ccolor other \<and> 0 < d \<and> d \<le> MAGNETIC_RANGE \<longrightarrow>
        0 \<le> falloff \<and>
        (beats (ccolor c) (ccolor other) \<longrightarrow>
           magneticBody c other tot
             = Some (fst tot + (dx / d) * (ATTRACTION_FORCE * falloff),
                     snd tot + (dy / d) * (ATTRACTION_FORCE * falloff))
           \<and> sqrt (((ATTRACTION_FORCE * falloff) * (dx / d)) * ((ATTRACTION_FORCE * falloff) * (dx / d))
                 + ((ATTRACTION_FORCE * falloff) * (dy / d)) * ((ATTRACTION_FORCE * falloff) * (dy / d)))
               = ATTRACTION_FORCE * falloff) \<and>
        (beats (ccolor other) (ccolor c) \<longrightarrow>
           magneticBody c other tot
             = Some (fst tot - (dx / d) * (REPULSION_FORCE * falloff),
                     snd tot - (dy / d) * (REPULSION_FORCE * falloff))
           \<and> sqrt (((REPULSION_FORCE * falloff) * (dx / d)) * ((REPULSION_FORCE * falloff) * (dx / d))
                 + ((REPULSION_FORCE * falloff) * (dy / d)) * ((REPULSION_FORCE * falloff) * (dy / d)))
               = REPULSION_FORCE * falloff))
     \<and> foldO (magneticBody c) cs (0, 0) = Some (tx, ty)
     \<and> (\<exists>r c'. applyMagneticForces cs c = Some c'
            \<and> c' = c\<lparr>cvx := (cvx c + tx) * r, cvy := (cvy c + ty) * r\<rparr>
            \<and> 0 < r \<and> r \<le> 1
            \<and> sqrt (cvx c' * cvx c' + cvy c' * cvy c') \<le> SPEED * 1.8
            \<and> (sqrt ((cvx c + tx) * (cvx c + tx) + (cvy c + ty) * (cvy c + ty)) \<le> SPEED * 1.8
                 \<longrightarrow> r = 1)
            \<and> (sqrt ((cvx c + tx) * (cvx c + tx) + (cvy c + ty) * (cvy c + ty)) > SPEED * 1.8
                 \<longrightarrow> r = SPEED * 1.8 / sqrt ((cvx c + tx) * (cvx c + tx) + (cvy c + ty) * (cvy c + ty))
                     \<and> sqrt (cvx c' * cvx c' + cvy c' * cvy c') = SPEED * 1.8))"
proof -
  have pair: "cid c \<noteq> cid other \<and> ccolor c \<noteq> ccolor other \<and> 0 < d \<and> d \<le> MAGNETIC_RANGE \<longrightarrow>
        0 \<le> falloff \<and>
        (beats (ccolor c) (ccolor other) \<longrightarrow>
           magneticBody c other tot
             = Some (fst tot + (dx / d) * (ATTRACTION_FORCE * falloff),
                     snd tot + (dy / d) * (ATTRACTION_FORCE * falloff))
           \<and> sqrt (((ATTRACTION_FORCE * falloff) * (dx / d)) * ((ATTRACTION_FORCE * falloff) * (dx / d))
                 + ((ATTRACTION_FORCE * falloff) * (dy / d)) * ((ATTRACTION_FORCE * falloff) * (dy / d)))
               = ATTRACTION_FORCE * falloff) \<and>
        (beats (ccolor other) (ccolor c) \<longrightarrow>
           magneticBody c other tot
             = Some (fst tot - (dx / d) * (REPULSION_FORCE * falloff),
                     snd tot - (dy / d) * (REPULSION_FORCE * falloff))
           \<and> sqrt (((REPULSION_FORCE * falloff) * (dx / d)) * ((REPULSION_FORCE * falloff) * (dx / d))
                 + ((REPULSION_FORCE * falloff) * (dy / d)) * ((REPULSION_FORCE * falloff) * (dy / d)))
               = REPULSION_FORCE * falloff)"
  proof (intro impI, elim conjE)
    assume ids: "cid c \<noteq> cid other" and cols: "ccolor c \<noteq> ccolor other"
      and dpos: "0 < d" and dle: "d \<le> MAGNETIC_RANGE"
    have fo: "0 \<le> falloff"
      using dle MAGNETIC_RANGE_pos by (simp add: falloff_def)
    have unit: "(dx / d) * (dx / d) + (dy / d) * (dy / d) = 1"
      unfolding d_def by (rule unit_normal) (use dpos in \<open>auto simp: d_def\<close>)
    have guard: "\<not> (d > MAGNETIC_RANGE \<or> d = 0)" using dpos dle by simp
    have fx: "fdiv dx d = Some (dx / d)" and fy: "fdiv dy d = Some (dy / d)"
      using dpos by (simp_all add: fdiv_def)
    have body: "magneticBody c other tot =
        (if getColorRelationship (ccolor c) (ccolor other) = Attraction
         then Some (fst tot + (dx / d) * (ATTRACTION_FORCE * falloff),
                    snd tot + (dy / d) * (ATTRACTION_FORCE * falloff))
         else if getColorRelationship (ccolor c) (ccolor other) = Repulsion
         then Some (fst tot - (dx / d) * (REPULSION_FORCE * falloff),
                    snd tot - (dy / d) * (REPULSION_FORCE * falloff))
         else Some tot)"
      unfolding magneticBody_def Let_def
      apply (fold dx_def dy_def)
      apply (fold d_def)
      apply (fold falloff_def)
      apply (simp only: ids cols guard fx fy if_False bind.bind_lunit simp_thms)
      done
    have att: "getColorRelationship (ccolor c) (ccolor other) = Attraction \<longleftrightarrow> beats (ccolor c) (ccolor other)"
      by (cases "ccolor c"; cases "ccolor other") (simp_all add: getColorRelationship_def)
    have rep: "getColorRelationship (ccolor c) (ccolor other) = Repulsion \<longleftrightarrow> beats (ccolor other) (ccolor c)"
      by (cases "ccolor c"; cases "ccolor other") (simp_all add: getColorRelationship_def)
    have excl: "beats (ccolor other) (ccolor c) \<Longrightarrow> \<not> beats (ccolor c) (ccolor other)"
      by (cases "ccolor c"; cases "ccolor other") simp_all
    have ma: "sqrt (((ATTRACTION_FORCE * falloff) * (dx / d)) * ((ATTRACTION_FORCE * falloff) * (dx / d))
                 + ((ATTRACTION_FORCE * falloff) * (dy / d)) * ((ATTRACTION_FORCE * falloff) * (dy / d)))
               = ATTRACTION_FORCE * falloff"
      by (rule scaled_unit_norm [OF unit]) (use fo in \<open>simp add: ATTRACTION_FORCE_def\<close>)
    have mr: "sqrt (((REPULSION_FORCE * falloff) * (dx / d)) * ((REPULSION_FORCE * falloff) * (dx / d))
                 + ((REPULSION_FORCE * falloff) * (dy / d)) * ((REPULSION_FORCE * falloff) * (dy / d)))
               = REPULSION_FORCE * falloff"
      by (rule scaled_unit_norm [OF unit]) (use fo in \<open>simp add: REPULSION_FORCE_def\<close>)
    show "0 \<le> falloff \<and>
        (beats (ccolor c) (ccolor other) \<longrightarrow>
           magneticBody c other tot
             = Some (fst tot + (dx / d) * (ATTRACTION_FORCE * falloff),
                     snd tot + (dy / d) * (ATTRACTION_FORCE * falloff))
           \<and> sqrt (((ATTRACTION_FORCE * falloff) * (dx / d)) * ((ATTRACTION_FORCE * falloff) * (dx / d))
                 + ((ATTRACTION_FORCE * falloff) * (dy / d)) * ((ATTRACTION_FORCE * falloff) * (dy / d)))
               = ATTRACTION_FORCE * falloff) \<and>
        (beats (ccolor other) (ccolor c) \<longrightarrow>
           magneticBody c other tot
             = Some (fst tot - (dx / d) * (REPULSION_FORCE * falloff),
                     snd tot - (dy / d) * (REPULSION_FORCE * falloff))
           \<and> sqrt (((REPULSION_FORCE * falloff) * (dx / d)) * ((REPULSION_FORCE * falloff) * (dx / d))
                 + ((REPULSION_FORCE * falloff) * (dy / d)) * ((REPULSION_FORCE * falloff) * (dy / d)))
               = REPULSION_FORCE * falloff)"
      using fo ma mr excl by (simp add: body att rep)
  qed
  have total: "foldO (magneticBody c) cs (0, 0) = Some (tx, ty)"
    by (simp add: foldO_magneticBody_sum tx_def ty_def)
  define vx where "vx = cvx c + tx"
  define vy where "vy = cvy c + ty"
  have amf: "applyMagneticForces cs c =
      (if sqrt (vx * vx + vy * vy) > SPEED * 1.8
       then Some (c\<lparr>cvx := vx * (SPEED * 1.8 / sqrt (vx * vx + vy * vy)),
                    cvy := vy * (SPEED * 1.8 / sqrt (vx * vx + vy * vy))\<rparr>)
       else Some (c\<lparr>cvx := vx, cvy := vy\<rparr>))"
    unfolding applyMagneticForces_def total Let_def
    by (auto simp: fdiv_def vx_def vy_def SPEED_def)
  have clampex: "\<exists>r c'. applyMagneticForces cs c = Some c'
            \<and> c' = c\<lparr>cvx := vx * r, cvy := vy * r\<rparr>
            \<and> 0 < r \<and> r \<le> 1
            \<and> sqrt (cvx c' * cvx c' + cvy c' * cvy c') \<le> SPEED * 1.8
            \<and> (sqrt (vx * vx + vy * vy) \<le> SPEED * 1.8 \<longrightarrow> r = 1)
            \<and> (sqrt (vx * vx + vy * vy) > SPEED * 1.8
                 \<longrightarrow> r = SPEED * 1.8 / sqrt (vx * vx + vy * vy)
                     \<and> sqrt (cvx c' * cvx c' + cvy c' * cvy c') = SPEED * 1.8)"
  proof (cases "sqrt (vx * vx + vy * vy) > SPEED * 1.8")
    case True
    have mp: "0 < SPEED * 1.8" by (simp add: SPEED_def)
    let ?r = "SPEED * 1.8 / sqrt (vx * vx + vy * vy)"
    have sp: "0 < sqrt (vx * vx + vy * vy)" using True mp by linarith
    have r1: "0 < ?r" using mp sp by simp
    have r2: "?r \<le> 1" using True sp by simp
    have sp': "sqrt ((vx * ?r) * (vx * ?r) + (vy * ?r) * (vy * ?r)) = SPEED * 1.8"
      by (rule clamp_speed [OF mp True])
    show ?thesis
      apply (rule exI [of _ ?r])
      apply (rule exI [of _ "c\<lparr>cvx := vx * ?r, cvy := vy * ?r\<rparr>"])
      using True r1 r2 sp' by (simp add: amf)
  next
    case False
    show ?thesis
      apply (rule exI [of _ 1])
      apply (rule exI [of _ "c\<lparr>cvx := vx, cvy := vy\<rparr>"])
      using False by (simp add: amf)
  qed
  from pair total clampex show ?thesis
    unfolding vx_def vy_def by blast
qed


theorem force_field_law_witness:
  "cid circleA \<noteq> cid circleB \<and> ccolor circleA \<noteq> ccolor circleB
   \<and> 0 < sqrt ((cx circleB - cx circleA) * (cx circleB - cx circleA)
              + (cy circleB - cy circleA) * (cy circleB - cy circleA))
   \<and> sqrt ((cx circleB - cx circleA) * (cx circleB - cx circleA)
              + (cy circleB - cy circleA) * (cy circleB - cy circleA)) \<le> MAGNETIC_RANGE
   \<and> beats (ccolor circleA) (ccolor circleB)
   \<and> magneticBody circleA circleB (0, 0) = Some (11 / 100, 0)
   \<and> magneticBody circleB circleA (0, 0) = Some (11 / 75, 0)
   \<and> sqrt (cvx circleS * cvx circleS + cvy circleS * cvy circleS) > SPEED * 1.8
   \<and> (\<exists>c'. applyMagneticForces [] circleS = Some c'
         \<and> cvx c' = 27 / 10 \<and> cvy c' = 18 / 5
         \<and> sqrt (cvx c' * cvx c' + cvy c' * cvy c') = SPEED * 1.8)"
proof -
  have a: "cid circleA \<noteq> cid circleB \<and> ccolor circleA \<noteq> ccolor circleB
   \<and> 0 < sqrt ((cx circleB - cx circleA) * (cx circleB - cx circleA)
              + (cy circleB - cy circleA) * (cy circleB - cy circleA))
   \<and> sqrt ((cx circleB - cx circleA) * (cx circleB - cx circleA)
              + (cy circleB - cy circleA) * (cy circleB - cy circleA)) \<le> MAGNETIC_RANGE
   \<and> beats (ccolor circleA) (ccolor circleB)
   \<and> magneticBody circleA circleB (0, 0) = Some (11 / 100, 0)
   \<and> magneticBody circleB circleA (0, 0) = Some (11 / 75, 0)"
    using force_field_law [where c = circleA and other = circleB and tot = "(0, 0)" and cs = "[]"]
        force_field_law [where c = circleB and other = circleA and tot = "(0, 0)" and cs = "[]"]
    by (simp add: circleA_def circleB_def MAGNETIC_RANGE_def ATTRACTION_FORCE_def
        REPULSION_FORCE_def)
  have over: "sqrt (cvx circleS * cvx circleS + cvy circleS * cvy circleS) > SPEED * 1.8"
    by (simp add: circleS_def SPEED_def)
  note t = force_field_law [where c = circleS and other = circleS and tot = "(0, 0)" and cs = "[]",
      THEN conjunct2, THEN conjunct2]
  from t obtain r c' where
    amf: "applyMagneticForces [] circleS = Some c'"
    and c': "c' = circleS\<lparr>cvx := (cvx circleS + 0) * r, cvy := (cvy circleS + 0) * r\<rparr>"
    and ov: "sqrt ((cvx circleS + 0) * (cvx circleS + 0) + (cvy circleS + 0) * (cvy circleS + 0)) > SPEED * 1.8
                 \<longrightarrow> r = SPEED * 1.8 / sqrt ((cvx circleS + 0) * (cvx circleS + 0) + (cvy circleS + 0) * (cvy circleS + 0))
                     \<and> sqrt (cvx c' * cvx c' + cvy c' * cvy c') = SPEED * 1.8"
    by auto
  from ov over have r: "r = 9 / 20" and sp: "sqrt (cvx c' * cvx c' + cvy c' * cvy c') = SPEED * 1.8"
    by (simp_all add: circleS_def SPEED_def)
  have v: "cvx c' = 27 / 10" "cvy c' = 18 / 5" using c' r by (simp_all add: circleS_def)
  have b: "\<exists>c'. applyMagneticForces [] circleS = Some c'
         \<and> cvx c' = 27 / 10 \<and> cvy c' = 18 / 5
         \<and> sqrt (cvx c' * cvx c' + cvy c' * cvy c') = SPEED * 1.8"
    by (rule exI [of _ c']) (intro conjI amf v sp)
  from a over b show ?thesis by (intro conjI) (elim conjE, assumption)+
qed

text \<open>
  C7 (as amended). In a square arena at least as wide and as high as the circle's diameter,
  handleSquareBoundaries leaves the centre within the arena edges inset by half the
  diameter, and a circle found beyond an edge has the velocity component of that axis
  negated and its coordinate set to that edge. Hence, when every circle fits the arena,
  updateCircles returns and every circle of its result is within these bounds.
\<close>

theorem square_boundary_containment:
  fixes e :: GameEngine and c :: Circle
  defines "lft \<equiv> canvas_width e / 2 - PLAYFIELD_WIDTH e / 2 + csize c / 2"
  defines "rgt \<equiv> canvas_width e / 2 + PLAYFIELD_WIDTH e / 2 - csize c / 2"
  defines "tp \<equiv> canvas_height e / 2 - PLAYFIELD_HEIGHT e / 2 + csize c / 2"
  defines "btm \<equiv> canvas_height e / 2 + PLAYFIELD_HEIGHT e / 2 - csize c / 2"
  defines "c' \<equiv> handleSquareBoundaries e c"
  shows "(csize c \<le> PLAYFIELD_WIDTH e \<and> csize c \<le> PLAYFIELD_HEIGHT e \<longrightarrow>
           lft \<le> cx c' \<and> cx c' \<le> rgt \<and> tp \<le> cy c' \<and> cy c' \<le> btm
           \<and> (cx c < lft \<longrightarrow> cvx c' = - cvx c \<and> cx c' = lft)
           \<and> (cx c > rgt \<longrightarrow> cvx c' = - cvx c \<and> cx c' = rgt)
           \<and> (cy c < tp \<longrightarrow> cvy c' = - cvy c \<and> cy c' = tp)
           \<and> (cy c > btm \<longrightarrow> cvy c' = - cvy c \<and> cy c' = btm))
       \<and> (shape (currentArena e) = Square
            \<and> (\<forall>a \<in> set (circles e). csize a \<le> PLAYFIELD_WIDTH e \<and> csize a \<le> PLAYFIELD_HEIGHT e) \<longrightarrow>
           (\<exists>e'. updateCircles e = Some e' \<and> length (circles e') = length (circles e)
              \<and> (\<forall>a \<in> set (circles e').
                    canvas_width e / 2 - PLAYFIELD_WIDTH e / 2 + csize a / 2 \<le> cx a
                  \<and> cx a \<le> canvas_width e / 2 + PLAYFIELD_WIDTH e / 2 - csize a / 2
                  \<and> canvas_height e / 2 - PLAYFIELD_HEIGHT e / 2 + csize a / 2 \<le> cy a
                  \<and> cy a \<le> canvas_height e / 2 + PLAYFIELD_HEIGHT e / 2 - csize a / 2)))"
proof -
  have one: "csize c \<le> PLAYFIELD_WIDTH e \<and> csize c \<le> PLAYFIELD_HEIGHT e \<longrightarrow>
           lft \<le> cx c' \<and> cx c' \<le> rgt \<and> tp \<le> cy c' \<and> cy c' \<le> btm
           \<and> (cx c < lft \<longrightarrow> cvx c' = - cvx c \<and> cx c' = lft)
           \<and> (cx c > rgt \<longrightarrow> cvx c' = - cvx c \<and> cx c' = rgt)
           \<and> (cy c < tp \<longrightarrow> cvy c' = - cvy c \<and> cy c' = tp)
           \<and> (cy c > btm \<longrightarrow> cvy c' = - cvy c \<and> cy c' = btm)"
    using handleSquareBoundaries_bounds [of c e]
    unfolding lft_def rgt_def tp_def btm_def c'_def by blast
  have all: "shape (currentArena e) = Square
            \<and> (\<forall>a \<in> set (circles e). csize a \<le> PLAYFIELD_WIDTH e \<and> csize a \<le> PLAYFIELD_HEIGHT e) \<longrightarrow>
           (\<exists>e'. updateCircles e = Some e' \<and> length (circles e') = length (circles e)
              \<and> (\<forall>a \<in> set (circles e').
                    canvas_width e / 2 - PLAYFIELD_WIDTH e / 2 + csize a / 2 \<le> cx a
                  \<and> cx a \<le> canvas_width e / 2 + PLAYFIELD_WIDTH e / 2 - csize a / 2
                  \<and> canvas_height e / 2 - PLAYFIELD_HEIGHT e / 2 + csize a / 2 \<le> cy a
                  \<and> cy a \<le> canvas_height e / 2 + PLAYFIELD_HEIGHT e / 2 - csize a / 2))"
  proof (intro impI, elim conjE)
    assume sq: "shape (currentArena e) = Square"
      and fit: "\<forall>a \<in> set (circles e). csize a \<le> PLAYFIELD_WIDTH e \<and> csize a \<le> PLAYFIELD_HEIGHT e"
    from updateCircles_total_square [OF sq] obtain e' where e': "updateCircles e = Some e'" by blast
    note pre = updateCircles_prefix [OF e' [unfolded updateCircles_def] le_refl]
    from pre have len: "length (circles e') = length (circles e)" by blast
    have "\<forall>a \<in> set (circles e').
                    canvas_width e / 2 - PLAYFIELD_WIDTH e / 2 + csize a / 2 \<le> cx a
                  \<and> cx a \<le> canvas_width e / 2 + PLAYFIELD_WIDTH e / 2 - csize a / 2
                  \<and> canvas_height e / 2 - PLAYFIELD_HEIGHT e / 2 + csize a / 2 \<le> cy a
                  \<and> cy a \<le> canvas_height e / 2 + PLAYFIELD_HEIGHT e / 2 - csize a / 2"
    proof
      fix a assume "a \<in> set (circles e')"
      then obtain k where k: "k < length (circles e')" and a: "a = circles e' ! k"
        by (auto simp: in_set_conv_nth)
      from pre k len obtain c1 where
        amf: "applyMagneticForces (take k (circles e') @ drop k (circles e)) (circles e ! k) = Some c1"
        and hab: "handleArenaBoundaries e (c1\<lparr>cx := cx c1 + cvx c1, cy := cy c1 + cvy c1\<rparr>) = Some a"
        unfolding a by auto
      let ?c2 = "c1\<lparr>cx := cx c1 + cvx c1, cy := cy c1 + cvy c1\<rparr>"
      have a2: "a = handleSquareBoundaries e ?c2"
        using hab sq by (simp add: handleArenaBoundaries_def Let_def)
      have sz: "csize ?c2 = csize (circles e ! k)"
        using applyMagneticForces_static [OF amf] by simp
      have "circles e ! k \<in> set (circles e)" using k len by simp
      with fit sz have f2: "csize ?c2 \<le> PLAYFIELD_WIDTH e" "csize ?c2 \<le> PLAYFIELD_HEIGHT e"
        by auto
      have sza: "csize a = csize ?c2"
        unfolding a2 using handleSquareBoundaries_static [of e ?c2] by blast
      from handleSquareBoundaries_bounds [OF f2] show
         "canvas_width e / 2 - PLAYFIELD_WIDTH e / 2 + csize a / 2 \<le> cx a
                  \<and> cx a \<le> canvas_width e / 2 + PLAYFIELD_WIDTH e / 2 - csize a / 2
                  \<and> canvas_height e / 2 - PLAYFIELD_HEIGHT e / 2 + csize a / 2 \<le> cy a
                  \<and> cy a \<le> canvas_height e / 2 + PLAYFIELD_HEIGHT e / 2 - csize a / 2"
        unfolding sza a2 [symmetric] by blast
    qed
    with e' len show "\<exists>e'. updateCircles e = Some e' \<and> length (circles e') = length (circles e)
              \<and> (\<forall>a \<in> set (circles e').
                    canvas_width e / 2 - PLAYFIELD_WIDTH e / 2 + csize a / 2 \<le> cx a
                  \<and> cx a \<le> canvas_width e / 2 + PLAYFIELD_WIDTH e / 2 - csize a / 2
                  \<and> canvas_height e / 2 - PLAYFIELD_HEIGHT e / 2 + csize a / 2 \<le> cy a
                  \<and> cy a \<le> canvas_height e / 2 + PLAYFIELD_HEIGHT e / 2 - csize a / 2)"
      by blast
  qed
  from one all show ?thesis by blast
qed

theorem square_boundary_containment_witness:
  "csize circleG \<le> PLAYFIELD_WIDTH (engineOf [circleG])
   \<and> csize circleG \<le> PLAYFIELD_HEIGHT (engineOf [circleG])
   \<and> cx circleG > canvas_width (engineOf [circleG]) / 2 + PLAYFIELD_WIDTH (engineOf [circleG]) / 2
                    - csize circleG / 2
   \<and> cx (handleSquareBoundaries (engineOf [circleG]) circleG) = 955 / 2
   \<and> cvx (handleSquareBoundaries (engineOf [circleG]) circleG) = - 3
   \<and> shape (currentArena (engineOf [circleG])) = Square
   \<and> circles (engineOf [circleG]) = [circleG]
   \<and> (\<exists>e'. updateCircles (engineOf [circleG]) = Some e' \<and> length (circles e') = 1)"
  using square_boundary_containment [where e = "engineOf [circleG]" and c = circleG]
  by (simp add: engineOf_def circleG_def arena0_def handleSquareBoundaries_def Let_def) blast

text \<open>
  C7 as stated fails in a square arena smaller than the circle (the arena setArena computes
  for a canvas of 40 by 40 pixels and the size class small): the clamp puts the centre on
  the left bound, which is then beyond the right bound.
\<close>

theorem square_boundary_counterexample:
  "setArena Square Small tinyEngine = tinyEngine
   \<and> shape (currentArena tinyEngine) = Square
   \<and> cx (handleSquareBoundaries tinyEngine circleT) = 51 / 2
   \<and> canvas_width tinyEngine / 2 + PLAYFIELD_WIDTH tinyEngine / 2
        - csize (handleSquareBoundaries tinyEngine circleT) / 2 = 29 / 2
   \<and> \<not> cx (handleSquareBoundaries tinyEngine circleT)
        \<le> canvas_width tinyEngine / 2 + PLAYFIELD_WIDTH tinyEngine / 2
            - csize (handleSquareBoundaries tinyEngine circleT) / 2"
  by (simp add: handleSquareBoundaries_def tinyEngine_def circleT_def Let_def setArena_def
        createArenaConfig_def)

text \<open>The frame of the two-circle example, evaluated.\<close>

lemma updateCircles_engineEF:
  "updateCircles (engineOf [circleE, circleF]) = Some (engineOf [circleE1, circleF1])"
  by (simp add: updateCircles_def engineOf_def circleE_def circleF_def circleE1_def circleF1_def
      upt2 updateCircle_def
      applyMagneticForces_def magneticBody_def Let_def fdiv_def getColorRelationship_def
      handleArenaBoundaries_def handleSquareBoundaries_def arena0_def
      MAGNETIC_RANGE_def ATTRACTION_FORCE_def REPULSION_FORCE_def SPEED_def sq1 sq2 sq3)

text \<open>
  C5 (as amended). updateCircles handles the circles one after the other, in list order,
  and for each circle applies the force field, then the integration, then the boundary
  handling, before it turns to the next circle: the circle at index k of the result is the
  boundary handling of the integration of the force field applied to the old circle k,
  where the force field reads the already updated circles before index k and the old
  circles from index k on. The circle list is not changed by the particle update, and
  checkCollisions then runs on the circles updateCircles returned, followed by the win
  check and the request of the next frame.
\<close>

theorem updateCircles_per_circle_order:
  assumes run: "isRunning e" and upd: "updateCircles e = Some e1" and k: "k < length (circles e)"
  shows "length (circles e1) = length (circles e)
     \<and> (\<exists>c1. applyMagneticForces (take k (circles e1) @ drop k (circles e)) (circles e ! k) = Some c1
             \<and> handleArenaBoundaries e (c1\<lparr>cx := cx c1 + cvx c1, cy := cy c1 + cvy c1\<rparr>)
                 = Some (circles e1 ! k))
     \<and> circles (updateParticles e1) = circles e1
     \<and> gameLoop w e =
         (case checkCollisions w (updateParticles e1) of
            None \<Rightarrow> None
          | Some e3 \<Rightarrow>
              Some ((checkWinCondition e3)\<lparr>animationId := Some (rafCount (checkWinCondition e3) + 1),
                                            rafCount := rafCount (checkWinCondition e3) + 1\<rparr>))"
proof -
  note pre = updateCircles_prefix [OF upd [unfolded updateCircles_def] le_refl]
  from pre have a: "length (circles e1) = length (circles e)" by blast
  from pre k have b: "\<exists>c1. applyMagneticForces (take k (circles e1) @ drop k (circles e)) (circles e ! k) = Some c1
             \<and> handleArenaBoundaries e (c1\<lparr>cx := cx c1 + cvx c1, cy := cy c1 + cvy c1\<rparr>)
                 = Some (circles e1 ! k)" by blast
  have c: "circles (updateParticles e1) = circles e1" by (simp add: updateParticles_def)
  have d: "gameLoop w e =
         (case checkCollisions w (updateParticles e1) of
            None \<Rightarrow> None
          | Some e3 \<Rightarrow>
              Some ((checkWinCondition e3)\<lparr>animationId := Some (rafCount (checkWinCondition e3) + 1),
                                            rafCount := rafCount (checkWinCondition e3) + 1\<rparr>))"
    using run by (simp add: gameLoop_def upd Let_def split: option.splits)
  from a b c d show ?thesis by blast
qed


theorem updateCircles_per_circle_order_witness:
  "isRunning (engineOf [circleE, circleF])
   \<and> updateCircles (engineOf [circleE, circleF]) = Some (engineOf [circleE1, circleF1])
   \<and> (1::nat) < length (circles (engineOf [circleE, circleF]))
   \<and> (\<exists>c1. applyMagneticForces [circleE1, circleF] circleF = Some c1
         \<and> handleArenaBoundaries (engineOf [circleE, circleF])
              (c1\<lparr>cx := cx c1 + cvx c1, cy := cy c1 + cvy c1\<rparr>) = Some circleF1)"
proof -
  have r: "isRunning (engineOf [circleE, circleF])" by (simp add: engineOf_def)
  have k: "(1::nat) < length (circles (engineOf [circleE, circleF]))" by (simp add: engineOf_def)
  from updateCircles_per_circle_order [OF r updateCircles_engineEF k, of world0]
  have "\<exists>c1. applyMagneticForces [circleE1, circleF] circleF = Some c1
         \<and> handleArenaBoundaries (engineOf [circleE, circleF])
              (c1\<lparr>cx := cx c1 + cvx c1, cy := cy c1 + cvy c1\<rparr>) = Some circleF1"
    by (simp add: engineOf_def)
  with r k updateCircles_engineEF show ?thesis by blast
qed

text \<open>
  C5 as stated fails: with a blue circle at (100, 100) and a red one at (130, 100), both at
  rest, the red circle's force is computed from the blue circle's position after its
  integration (100.09), which gives the velocity 0.12024; the update in three separate
  phases, every force from the positions before any integration, gives 0.12.
\<close>

theorem updateCircles_phases_counterexample:
  "map_option cvx (circleAt 1 (updateCircles (engineOf [circleE, circleF]))) = Some (1503 / 12500)
   \<and> map_option cvx (circleAt 1 (updateCircles_phased (engineOf [circleE, circleF]))) = Some (3 / 25)
   \<and> updateCircles (engineOf [circleE, circleF]) \<noteq> updateCircles_phased (engineOf [circleE, circleF])"
proof -
  have a: "map_option cvx (circleAt 1 (updateCircles (engineOf [circleE, circleF]))) = Some (1503 / 12500)"
    unfolding updateCircles_engineEF circleAt_def
    by (simp add: engineOf_def circleF1_def)
  have b: "map_option cvx (circleAt 1 (updateCircles_phased (engineOf [circleE, circleF]))) = Some (3 / 25)"
    by (simp add: circleAt_def updateCircles_phased_def engineOf_def circleE_def circleF_def upt2
      applyMagneticForces_def magneticBody_def Let_def fdiv_def getColorRelationship_def
      handleArenaBoundaries_def handleSquareBoundaries_def arena0_def
      MAGNETIC_RANGE_def ATTRACTION_FORCE_def REPULSION_FORCE_def SPEED_def sq1 sq2 sq3 sq4)
  have c: "updateCircles (engineOf [circleE, circleF]) \<noteq> updateCircles_phased (engineOf [circleE, circleF])"
  proof
    assume "updateCircles (engineOf [circleE, circleF]) = updateCircles_phased (engineOf [circleE, circleF])"
    with a have "map_option cvx (circleAt 1 (updateCircles_phased (engineOf [circleE, circleF])))
        = Some (1503 / 12500)" by (simp only:)
    with b have "Some (3 / 25 :: real) = Some (1503 / 12500)" by (simp only:)
    then show False by simp
  qed
  from a b c show ?thesis by blast
qed








text \<open>
  C3. The win check calls onGameEnd with the colour C exactly when C has a non-zero count of
  circles and the other two colours have none (the count of a colour is the number of
  circles of that colour); it either leaves the engine as it is, or stops it and calls the
  callback once. With no circles it reports nothing. A stopped engine is not changed by
  any number of frames, and over any number of frames from any state the callback is
  called at most once, in a frame that leaves the engine stopped. In a square arena every
  frame returns.
\<close>

theorem win_condition_reports_once:
  "(gameEnds (checkWinCondition e) = gameEnds e @ [C]
      \<longleftrightarrow> 0 < getColorCounts e C \<and> (\<forall>D. D \<noteq> C \<longrightarrow> getColorCounts e D = 0))
   \<and> getColorCounts e C = length (filter (\<lambda>c. ccolor c = C) (circles e))
   \<and> (checkWinCondition e = e
        \<or> (\<exists>D. checkWinCondition e = e\<lparr>isRunning := False, gameEnds := gameEnds e @ [D]\<rparr>))
   \<and> (circles e = [] \<longrightarrow> checkWinCondition e = e)
   \<and> (\<not> isRunning e \<longrightarrow> frames w n e = Some e)
   \<and> (frames w n e = Some e' \<longrightarrow>
         gameEnds e' = gameEnds e \<or> (\<not> isRunning e' \<and> (\<exists>D. gameEnds e' = gameEnds e @ [D])))
   \<and> (shape (currentArena e) = Square \<longrightarrow> (\<exists>e''. frames w n e = Some e''))"
  using checkWinCondition_fires_iff [of e C] getColorCounts_filter [of e C]
        checkWinCondition_effect [of e] checkWinCondition_empty [of e]
        frames_stopped [of e w n] frames_at_most_once [of w n e e']
        frames_total_square [of e w n]
  by (intro conjI impI) assumption+

theorem win_condition_reports_once_witness:
  "0 < getColorCounts (engineOf [circleA]) Blue
   \<and> getColorCounts (engineOf [circleA]) Red = 0
   \<and> getColorCounts (engineOf [circleA]) Green = 0
   \<and> gameEnds (checkWinCondition (engineOf [circleA])) = gameEnds (engineOf [circleA]) @ [Blue]
   \<and> circles (engineOf []) = []
   \<and> checkWinCondition (engineOf []) = engineOf []
   \<and> \<not> isRunning engineA1
   \<and> frames world0 (Suc (Suc (Suc 0))) engineA1 = Some engineA1
   \<and> frames world0 (Suc (Suc 0)) (engineOf [circleA]) = Some engineA1
   \<and> gameEnds engineA1 = gameEnds (engineOf [circleA]) @ [Blue]
   \<and> shape (currentArena (engineOf [circleA])) = Square"
proof -
  note t1 = win_condition_reports_once [where e = "engineOf [circleA]" and C = Blue and w = world0
      and n = "Suc (Suc 0)" and e' = engineA1]
  note t2 = win_condition_reports_once [where e = "engineOf []" and C = Blue and w = world0
      and n = 0 and e' = "engineOf []"]
  note t3 = win_condition_reports_once [where e = engineA1 and C = Blue and w = world0
      and n = "Suc (Suc (Suc 0))" and e' = engineA1]
  have c: "getColorCounts (engineOf [circleA]) Blue = 1 \<and> getColorCounts (engineOf [circleA]) Red = 0
         \<and> getColorCounts (engineOf [circleA]) Green = 0"
    by (simp add: getColorCounts_def engineOf_def circleA_def)
  have nr: "\<not> isRunning engineA1" by (simp add: engineA1_def)
  have em: "circles (engineOf []) = []" by (simp add: engineOf_def)
  have sq: "shape (currentArena (engineOf [circleA])) = Square" by (simp add: engineOf_def arena0_def)
  have ge: "gameEnds engineA1 = gameEnds (engineOf [circleA]) @ [Blue]"
    by (simp add: engineA1_def engineOf_def)
  have all: "\<forall>D. D \<noteq> Blue \<longrightarrow> getColorCounts (engineOf [circleA]) D = 0"
  proof (intro allI impI)
    fix D :: GameColor assume "D \<noteq> Blue"
    then show "getColorCounts (engineOf [circleA]) D = 0" using c by (cases D) simp_all
  qed
  from t1 c all have a: "gameEnds (checkWinCondition (engineOf [circleA])) = gameEnds (engineOf [circleA]) @ [Blue]"
    by simp
  from t2 em have b: "checkWinCondition (engineOf []) = engineOf []" by blast
  from t3 nr have d: "frames world0 (Suc (Suc (Suc 0))) engineA1 = Some engineA1" by blast
  from a b c d nr em sq ge frames_engineA show ?thesis by simp
qed

end
